theory Spec2Isabelle
  imports Complex_Main
begin

section \<open>Values shared by the scripts\<close>

text \<open>
  Pixel charges, arrival times and Hillas widths are IEEE doubles. The scripts only ever
  compare them with zero, test them for NaN and overwrite them with zero, so a double is
  rendered as a finite real or one of the three special values; both signed zeros are
  \<open>Finite 0\<close>.
\<close>

datatype pyfloat = Finite real | PosInf | NegInf | NaN

type_synonym image = "pyfloat list"

type_synonym mask = "bool list"

datatype py_exception = IndexError | ValueError | UnboundLocalError | OtherError nat

text \<open>\<open>x == 0\<close>, \<open>np.isnan(x)\<close>, the truth value of \<open>x\<close> and \<open>x > 0\<close> on a double.\<close>

definition is_zero :: "pyfloat \<Rightarrow> bool" where
  "is_zero x = (x = Finite 0)"

definition isnan :: "pyfloat \<Rightarrow> bool" where
  "isnan x = (x = NaN)"

definition truthy :: "pyfloat \<Rightarrow> bool" where
  "truthy x = (\<not> is_zero x)"

fun gt_zero :: "pyfloat \<Rightarrow> bool" where
  "gt_zero (Finite r) = (0 < r)"
| "gt_zero PosInf = True"
| "gt_zero NegInf = False"
| "gt_zero NaN = False"

section \<open>Island counting: \<open>get_num_islands\<close>\<close>

text \<open>
  A matrix is its shape and its entries; \<open>neighbor_matrix_sparse\<close> of a camera is such a
  boolean matrix over pixel indices.
\<close>

record matrix =
  nrows :: nat
  ncols :: nat
  entry :: "nat \<Rightarrow> nat \<Rightarrow> bool"

record camera =
  n_pixels :: nat
  neighbor_matrix_sparse :: matrix

text \<open>
  Indexing with a boolean array selects the positions where it is true, in increasing
  order; an array whose length is not that of the indexed axis raises \<open>IndexError\<close>.
\<close>

definition nonzero :: "mask \<Rightarrow> nat list" where
  "nonzero m = filter (\<lambda>i. m ! i) [0..<length m]"

definition select_rows :: "matrix \<Rightarrow> mask \<Rightarrow> py_exception + matrix" where
  "select_rows M m =
     (if length m \<noteq> nrows M then Inl IndexError
      else let idx = nonzero m in
        Inr \<lparr>nrows = length idx, ncols = ncols M, entry = (\<lambda>a j. entry M (idx ! a) j)\<rparr>)"

definition select_cols :: "matrix \<Rightarrow> mask \<Rightarrow> py_exception + matrix" where
  "select_cols M m =
     (if length m \<noteq> ncols M then Inl IndexError
      else let idx = nonzero m in
        Inr \<lparr>nrows = nrows M, ncols = length idx, entry = (\<lambda>i b. entry M i (idx ! b))\<rparr>)"

text \<open>
  \<open>scipy.sparse.csgraph.connected_components(g, directed=False)\<close> labels the nodes of
  \<open>g\<close>: it walks the nodes in index order and, from every node that has no label yet,
  floods a fresh label over everything reachable, pushing the unlabelled neighbours (read
  along the rows of the matrix and of its transpose) of each popped node on a stack.
  \<open>flood adj stack unvisited\<close> is one such flooding and returns the nodes still without a
  label; \<open>count_components\<close> counts the labels handed out.
\<close>

function flood :: "(nat \<Rightarrow> nat \<Rightarrow> bool) \<Rightarrow> nat list \<Rightarrow> nat list \<Rightarrow> nat list" where
  "flood adj [] unvisited = unvisited"
| "flood adj (v # stack) unvisited =
     flood adj (filter (adj v) unvisited @ stack) (filter (\<lambda>x. \<not> adj v x) unvisited)"
  by pat_completeness auto
termination
proof (relation "measure (\<lambda>(adj, stack, unvisited). length stack + length unvisited)")
  show "wf (measure (\<lambda>(adj, stack, unvisited). length stack + length unvisited))"
    by simp
next
  fix adj :: "nat \<Rightarrow> nat \<Rightarrow> bool" and v :: nat and stack unvisited :: "nat list"
  have "length (filter (adj v) unvisited) + length (filter (\<lambda>x. \<not> adj v x) unvisited)
          = length unvisited"
    by (rule sum_length_filter_compl)
  then show "((adj, filter (adj v) unvisited @ stack, filter (\<lambda>x. \<not> adj v x) unvisited),
              (adj, v # stack, unvisited))
             \<in> measure (\<lambda>(adj, stack, unvisited). length stack + length unvisited)"
    by simp
qed

lemma flood_length: "length (flood adj stack unvisited) \<le> length unvisited"
proof (induction adj stack unvisited rule: flood.induct)
  case (1 adj unvisited)
  show ?case by simp
next
  case (2 adj v stack unvisited)
  have "length (flood adj (v # stack) unvisited)
          \<le> length (filter (\<lambda>x. \<not> adj v x) unvisited)"
    using 2 by simp
  also have "\<dots> \<le> length unvisited"
    by (rule length_filter_le)
  finally show ?case .
qed

function count_components :: "(nat \<Rightarrow> nat \<Rightarrow> bool) \<Rightarrow> nat list \<Rightarrow> nat" where
  "count_components adj [] = 0"
| "count_components adj (v # unvisited) = Suc (count_components adj (flood adj [v] unvisited))"
  by pat_completeness auto
termination
  by (relation "measure (\<lambda>(adj, unvisited). length unvisited)")
     (simp_all add: flood_length le_imp_less_Suc del: flood.simps)

definition connected_components :: "matrix \<Rightarrow> py_exception + nat" where
  "connected_components g =
     (if nrows g \<noteq> ncols g then Inl ValueError
      else Inr (count_components (\<lambda>a b. entry g a b \<or> entry g b a) [0..<nrows g]))"

text \<open>
  \<open>get_num_islands(camera, clean_mask, event_image)\<close>: the neighbour matrix cut down to the
  rows and columns of the cleaned pixels, then the number of labels of
  \<open>connected_components\<close> (the labels themselves are dropped).
\<close>

definition get_num_islands :: "camera \<Rightarrow> mask \<Rightarrow> image \<Rightarrow> py_exception + nat" where
  "get_num_islands cam clean_mask event_image =
     (let neighbors = neighbor_matrix_sparse cam in
      case select_rows neighbors clean_mask of
        Inl e \<Rightarrow> Inl e
      | Inr rows \<Rightarrow>
          (case select_cols rows clean_mask of
             Inl e \<Rightarrow> Inl e
           | Inr clean_neighbors \<Rightarrow> connected_components clean_neighbors))"

section \<open>Hillas preprocessing: the event loops of \<open>process_dataset_mc\<close> and \<open>process_dataset_data\<close>\<close>

text \<open>
  An event as the loops read it: its identifiers, the telescopes with data (in the order
  the loop visits them) and, per telescope, the calibrated image and the arrival-time
  map. Pointing, trigger time and Monte Carlo truth are only copied into the written
  rows and are left out.
\<close>

record event =
  index_obs_id :: int
  index_event_id :: int
  tels_with_data :: "int list"
  dl1_image :: "int \<Rightarrow> image"
  dl1_peak_time :: "int \<Rightarrow> image"

text \<open>
  \<open>HillasParametersContainer\<close>, of which the scripts read \<open>width\<close>; \<open>InfoContainer\<close> with
  the identifiers and the island count. The leakage, timing and stereo containers are
  opaque values of a type \<open>'c\<close>.
\<close>

record hillas_container =
  intensity :: pyfloat
  width :: pyfloat
  psi :: pyfloat

record info_container =
  obs_id :: int
  event_id :: int
  tel_id :: int
  n_islands :: nat

text \<open>What a run leaves behind: the lines it prints and the rows it writes, in order.\<close>

datatype 'c action =
    Print_did_not_pass_cleaning int int int
  | Print_hillas_failed int int int
  | Print_width_zero int int
  | Print_width_nan int int
  | Print_image_not_reconstructed
  | Print_exception py_exception
  | Write_mc_header int
  | Write_hillas_params info_container hillas_container 'c 'c
  | Write_stereo_params_mars info_container 'c
  | Write_stereo_params_cta info_container 'c
  | Write_stereo_params info_container 'c

text \<open>
  The collaborators the loops call, each returning its value or the exception it raises:
  the MAGIC cleaning (\<open>magic_clean.clean_image\<close>, with the optional unsuitable-pixel
  mask), the bad-pixel calculator, ctapipe's \<open>hillas_parameters\<close>, \<open>timing_parameters\<close> and
  \<open>leakage\<close>, and the two stereo reconstructions.
\<close>

record 'c collaborators =
  clean_image :: "image \<Rightarrow> image \<Rightarrow> mask option \<Rightarrow> py_exception + (mask \<times> image \<times> image)"
  get_badrmspixel_mask :: "event \<Rightarrow> int \<Rightarrow> py_exception + mask"
  get_deadpixel_mask :: "event \<Rightarrow> int \<Rightarrow> py_exception + mask"
  hillas_parameters :: "camera \<Rightarrow> image \<Rightarrow> py_exception + hillas_container"
  timing_parameters :: "camera \<Rightarrow> image \<Rightarrow> image \<Rightarrow> hillas_container \<Rightarrow> mask \<Rightarrow> py_exception + 'c"
  leakage :: "camera \<Rightarrow> image \<Rightarrow> mask \<Rightarrow> py_exception + 'c"
  stereo_par_calc_mars :: "event \<Rightarrow> (int \<times> hillas_container) list \<Rightarrow> py_exception + 'c"
  predict :: "event \<Rightarrow> (int \<times> hillas_container) list \<Rightarrow> py_exception + 'c"

text \<open>A dict keeps its keys in insertion order; assigning to a key that is there replaces its value.\<close>

fun dict_set :: "'k \<Rightarrow> 'v \<Rightarrow> ('k \<times> 'v) list \<Rightarrow> ('k \<times> 'v) list" where
  "dict_set k v [] = [(k, v)]"
| "dict_set k v ((k', v') # d) = (if k = k' then (k, v) # d else (k', v') # dict_set k v d)"

text \<open>
  \<open>cleaned = arr.copy(); cleaned[~clean_mask] = 0\<close>: a boolean index of another length
  than the array raises \<open>IndexError\<close>.
\<close>

definition zero_unselected :: "mask \<Rightarrow> image \<Rightarrow> py_exception + image" where
  "zero_unselected clean_mask arr =
     (if length clean_mask \<noteq> length arr then Inl IndexError
      else Inr (map (\<lambda>(keep, x). if keep then x else Finite 0) (zip clean_mask arr)))"

definition cleaned_arrays :: "mask \<Rightarrow> image \<Rightarrow> image \<Rightarrow> py_exception + (image \<times> image)" where
  "cleaned_arrays clean_mask event_image event_pulse_time =
     (case zero_unselected clean_mask event_image of
        Inl e \<Rightarrow> Inl e
      | Inr event_image_cleaned \<Rightarrow>
          (case zero_unselected clean_mask event_pulse_time of
             Inl e \<Rightarrow> Inl e
           | Inr event_pulse_time_cleaned \<Rightarrow> Inr (event_image_cleaned, event_pulse_time_cleaned)))"

text \<open>\<open>np.logical_or\<close> of the two bad-pixel masks of the telescope (real data only).\<close>

definition logical_or :: "mask \<Rightarrow> mask \<Rightarrow> py_exception + mask" where
  "logical_or a b =
     (if length a \<noteq> length b then Inl ValueError else Inr (map (\<lambda>(x, y). x \<or> y) (zip a b)))"

definition unsuitable_mask_data :: "'c collaborators \<Rightarrow> event \<Rightarrow> int \<Rightarrow> py_exception + mask option" where
  "unsuitable_mask_data env ev tid =
     (case get_badrmspixel_mask env ev tid of
        Inl e \<Rightarrow> Inl e
      | Inr badrmspixel_mask \<Rightarrow>
          (case get_deadpixel_mask env ev tid of
             Inl e \<Rightarrow> Inl e
           | Inr deadpixel_mask \<Rightarrow>
               (case logical_or badrmspixel_mask deadpixel_mask of
                  Inl e \<Rightarrow> Inl e
                | Inr unsuitable_mask \<Rightarrow> Inr (Some unsuitable_mask))))"

definition unsuitable_mask_mc :: "'c collaborators \<Rightarrow> event \<Rightarrow> int \<Rightarrow> py_exception + mask option" where
  "unsuitable_mask_mc env ev tid = Inr None"

text \<open>
  The body of the \<open>try\<close>: Hillas parameters of the cleaned image, timing parameters over
  the pixels with positive cleaned charge, leakage of the uncleaned image.
\<close>

definition image_parameters ::
  "'c collaborators \<Rightarrow> camera \<Rightarrow> image \<Rightarrow> image \<Rightarrow> image \<Rightarrow> mask
     \<Rightarrow> py_exception + (hillas_container \<times> 'c \<times> 'c)" where
  "image_parameters env cam event_image_cleaned event_pulse_time_cleaned event_image clean_mask =
     (case hillas_parameters env cam event_image_cleaned of
        Inl e \<Rightarrow> Inl e
      | Inr hillas_params \<Rightarrow>
          (let image_mask = map gt_zero event_image_cleaned in
           case timing_parameters env cam event_image_cleaned event_pulse_time_cleaned
                  hillas_params image_mask of
             Inl e \<Rightarrow> Inl e
           | Inr timing_params \<Rightarrow>
               (case leakage env cam event_image clean_mask of
                  Inl e \<Rightarrow> Inl e
                | Inr leakage_params \<Rightarrow> Inr (hillas_params, timing_params, leakage_params))))"

text \<open>
  The per-event variables the telescope loop updates, and the output so far.
  \<open>telescope_pointings\<close> has the keys of \<open>computed_hillas_params\<close> and values read from the
  event, so the stereo collaborators are given the event instead. Building the pointing
  and the \<open>InfoContainer\<close> and handing a row to the writer are taken not to raise.
\<close>

record 'c loop_state =
  written :: "'c action list"
  computed_hillas_params :: "(int \<times> hillas_container) list"
  event_info :: "info_container option"

definition say :: "'c action \<Rightarrow> 'c loop_state \<Rightarrow> 'c loop_state" where
  "say act st = st\<lparr>written := written st @ [act]\<rparr>"

text \<open>
  One pass of \<open>for tel_id in tels_with_data\<close>. An exception other than the \<open>ValueError\<close>
  caught around the parameter computation leaves the function (\<open>Inl\<close>).
\<close>

definition tel_step ::
  "'c collaborators \<Rightarrow> camera \<Rightarrow> ('c collaborators \<Rightarrow> event \<Rightarrow> int \<Rightarrow> py_exception + mask option)
     \<Rightarrow> event \<Rightarrow> int \<Rightarrow> 'c loop_state \<Rightarrow> py_exception + 'c loop_state" where
  "tel_step env cam unsuitable ev tid st =
     (case unsuitable env ev tid of
        Inl e \<Rightarrow> Inl e
      | Inr unsuitable_mask \<Rightarrow>
     (case clean_image env (dl1_image ev tid) (dl1_peak_time ev tid) unsuitable_mask of
        Inl e \<Rightarrow> Inl e
      | Inr (clean_mask, event_image, event_pulse_time) \<Rightarrow>
     (case get_num_islands cam clean_mask event_image of
        Inl e \<Rightarrow> Inl e
      | Inr num_islands \<Rightarrow>
     (case cleaned_arrays clean_mask event_image event_pulse_time of
        Inl e \<Rightarrow> Inl e
      | Inr (event_image_cleaned, event_pulse_time_cleaned) \<Rightarrow>
          if list_ex truthy event_image_cleaned then
            (case image_parameters env cam event_image_cleaned event_pulse_time_cleaned
                    event_image clean_mask of
               Inr (hillas_params, timing_params, leakage_params) \<Rightarrow>
                 (let info = \<lparr>obs_id = index_obs_id ev, event_id = index_event_id ev,
                               tel_id = tid, n_islands = num_islands\<rparr>
                  in Inr (st\<lparr>computed_hillas_params :=
                               dict_set tid hillas_params (computed_hillas_params st),
                             event_info := Some info,
                             written := written st
                               @ [Write_hillas_params info hillas_params leakage_params timing_params]\<rparr>))
             | Inl ValueError \<Rightarrow>
                 Inr (say (Print_hillas_failed (index_event_id ev) (index_obs_id ev) tid) st)
             | Inl e \<Rightarrow> Inl e)
          else
            Inr (say (Print_did_not_pass_cleaning (index_event_id ev) (index_obs_id ev) tid) st)))))"

fun tel_loop ::
  "'c collaborators \<Rightarrow> camera \<Rightarrow> ('c collaborators \<Rightarrow> event \<Rightarrow> int \<Rightarrow> py_exception + mask option)
     \<Rightarrow> event \<Rightarrow> int list \<Rightarrow> 'c loop_state \<Rightarrow> py_exception + 'c loop_state" where
  "tel_loop env cam unsuitable ev [] st = Inr st"
| "tel_loop env cam unsuitable ev (tid # tids) st =
     (case tel_step env cam unsuitable ev tid st of
        Inl e \<Rightarrow> Inl e
      | Inr st' \<Rightarrow> tel_loop env cam unsuitable ev tids st')"

text \<open>
  The stereo part that follows the telescope loop; its result is what it prints and
  writes. \<open>event_info\<close> is the container of the last telescope that was written.
\<close>

definition stereo_stage ::
  "'c collaborators \<Rightarrow> event \<Rightarrow> 'c loop_state \<Rightarrow> py_exception + 'c action list" where
  "stereo_stage env ev st =
     (if length (computed_hillas_params st) > 1 then
        if list_ex (\<lambda>(tid, h). is_zero (width h)) (computed_hillas_params st) then
          Inr [Print_width_zero (index_event_id ev) (index_obs_id ev)]
        else if list_ex (\<lambda>(tid, h). isnan (width h)) (computed_hillas_params st) then
          Inr [Print_width_nan (index_event_id ev) (index_obs_id ev)]
        else
          (case stereo_par_calc_mars env ev (computed_hillas_params st) of
             Inl e \<Rightarrow> Inl e
           | Inr stereo_params_mars \<Rightarrow>
               (case predict env ev (computed_hillas_params st) of
                  Inl e \<Rightarrow> Inl e
                | Inr stereo_params_cta \<Rightarrow>
                    (case event_info st of
                       None \<Rightarrow> Inl UnboundLocalError
                     | Some info \<Rightarrow>
                         Inr [Write_stereo_params_mars (info\<lparr>tel_id := - 1\<rparr>) stereo_params_mars,
                              Write_stereo_params_cta (info\<lparr>tel_id := - 1\<rparr>) stereo_params_cta])))
      else Inr [])"

definition initial_state :: "'c loop_state" where
  "initial_state = \<lparr>written = [], computed_hillas_params = [], event_info = None\<rparr>"

definition process_event ::
  "'c collaborators \<Rightarrow> camera \<Rightarrow> ('c collaborators \<Rightarrow> event \<Rightarrow> int \<Rightarrow> py_exception + mask option)
     \<Rightarrow> event \<Rightarrow> py_exception + 'c action list" where
  "process_event env cam unsuitable ev =
     (case tel_loop env cam unsuitable ev (tels_with_data ev) initial_state of
        Inl e \<Rightarrow> Inl e
      | Inr st \<Rightarrow>
          (case stereo_stage env ev st of
             Inl e \<Rightarrow> Inl e
           | Inr outs \<Rightarrow> Inr (written st @ outs)))"

text \<open>
  \<open>for event in source\<close> of \<open>process_dataset_mc\<close>: the header row is written whenever the
  observation changes, and every event is processed.
\<close>

fun mc_events ::
  "'c collaborators \<Rightarrow> camera \<Rightarrow> int \<Rightarrow> event list \<Rightarrow> py_exception + 'c action list" where
  "mc_events env cam obs_id_last [] = Inr []"
| "mc_events env cam obs_id_last (ev # source) =
     (let header = (if index_obs_id ev \<noteq> obs_id_last then [Write_mc_header (index_obs_id ev)] else [])
      in case process_event env cam unsuitable_mask_mc ev of
           Inl e \<Rightarrow> Inl e
         | Inr outs \<Rightarrow>
             (case mc_events env cam (index_obs_id ev) source of
                Inl e \<Rightarrow> Inl e
              | Inr later \<Rightarrow> Inr (header @ outs @ later)))"

definition process_dataset_mc ::
  "'c collaborators \<Rightarrow> camera \<Rightarrow> event list \<Rightarrow> py_exception + 'c action list" where
  "process_dataset_mc env cam source = mc_events env cam (- 1) source"

text \<open>
  \<open>for event in source\<close> of \<open>process_dataset_data\<close>: an event whose identifier is the one
  held in \<open>previous_event_id\<close> is passed over.
\<close>

fun data_events ::
  "'c collaborators \<Rightarrow> camera \<Rightarrow> int \<Rightarrow> event list \<Rightarrow> py_exception + 'c action list" where
  "data_events env cam previous_event_id [] = Inr []"
| "data_events env cam previous_event_id (ev # source) =
     (if previous_event_id = index_event_id ev then data_events env cam previous_event_id source
      else
        (case process_event env cam unsuitable_mask_data ev of
           Inl e \<Rightarrow> Inl e
         | Inr outs \<Rightarrow>
             (case data_events env cam (index_event_id ev) source of
                Inl e \<Rightarrow> Inl e
              | Inr later \<Rightarrow> Inr (outs @ later))))"

definition process_dataset_data ::
  "'c collaborators \<Rightarrow> camera \<Rightarrow> event list \<Rightarrow> py_exception + 'c action list" where
  "process_dataset_data env cam source = data_events env cam 0 source"

section \<open>MAGIC + LST stereo reconstruction: the event loop of \<open>stereo_reco_MAGIC_LST\<close>\<close>

datatype camera_name = LSTCam | MAGICCam | OtherCam

text \<open>
  The simulated event adds the telescopes with raw data and the keys of \<open>event.dl1.tel\<close>
  in the order \<open>items()\<close> yields them. The events are taken as calibrated; the progress
  line printed for some events, the time gradients kept for the display and the display
  itself have no part in what is stored or written and are left out.
\<close>

record reco_event = event +
  r0_tels_with_data :: "int list"
  dl1_tel_keys :: "int list"

text \<open>
  Further collaborators of this script: the geometry of a telescope's camera and its name,
  ctapipe's \<open>tailcuts_clean\<close> and \<open>number_of_islands\<close>, \<open>timing_parameters\<close> in its
  four-argument form, and \<open>check_write_stereo\<close> of \<open>magicctapipe.reco.stereo\<close>, of which
  only what it prints and writes matters here.
\<close>

record 'c reco_collaborators = "'c collaborators" +
  geometry :: "int \<Rightarrow> py_exception + camera"
  camera_name_of :: "int \<Rightarrow> camera_name"
  tailcuts_clean :: "camera \<Rightarrow> image \<Rightarrow> py_exception + mask"
  number_of_islands :: "camera \<Rightarrow> mask \<Rightarrow> py_exception + nat"
  timing_parameters_reco :: "camera \<Rightarrow> image \<Rightarrow> image \<Rightarrow> hillas_container \<Rightarrow> py_exception + 'c"
  check_write_stereo ::
    "reco_event \<Rightarrow> int \<Rightarrow> (int \<times> hillas_container) list \<Rightarrow> info_container
       \<Rightarrow> py_exception + 'c action list"

text \<open>\<open>arr[clean]\<close>, \<open>geom[clean]\<close> and \<open>clean.sum()\<close> for a boolean array \<open>clean\<close>.\<close>

definition getitem_mask :: "'a list \<Rightarrow> mask \<Rightarrow> py_exception + 'a list" where
  "getitem_mask arr m =
     (if length m \<noteq> length arr then Inl IndexError else Inr (map (\<lambda>i. arr ! i) (nonzero m)))"

definition geom_getitem :: "camera \<Rightarrow> mask \<Rightarrow> py_exception + camera" where
  "geom_getitem geom m =
     (case select_rows (neighbor_matrix_sparse geom) m of
        Inl e \<Rightarrow> Inl e
      | Inr rows \<Rightarrow>
          (case select_cols rows m of
             Inl e \<Rightarrow> Inl e
           | Inr sub \<Rightarrow> Inr \<lparr>n_pixels = length (nonzero m), neighbor_matrix_sparse = sub\<rparr>))"

definition mask_sum :: "mask \<Rightarrow> nat" where
  "mask_sum m = length (filter (\<lambda>b. b) m)"

text \<open>
  Hillas, leakage and timing parameters of a cleaned image, common to both camera types:
  the part of the \<open>try\<close> after the cleaning.
\<close>

definition analyse_image ::
  "'c reco_collaborators \<Rightarrow> camera \<Rightarrow> image \<Rightarrow> image \<Rightarrow> mask \<Rightarrow> nat
     \<Rightarrow> py_exception + (hillas_container \<times> 'c \<times> 'c \<times> nat)" where
  "analyse_image env geom img peakpos clean num_islands =
     (case geom_getitem geom clean of Inl e \<Rightarrow> Inl e | Inr geom_clean \<Rightarrow>
     (case getitem_mask img clean of Inl e \<Rightarrow> Inl e | Inr image_clean \<Rightarrow>
     (case hillas_parameters env geom_clean image_clean of Inl e \<Rightarrow> Inl e | Inr hillas_params \<Rightarrow>
     (case leakage env geom img clean of Inl e \<Rightarrow> Inl e | Inr leakage_params \<Rightarrow>
     (case getitem_mask peakpos clean of Inl e \<Rightarrow> Inl e | Inr peakpos_clean \<Rightarrow>
     (case timing_parameters_reco env geom_clean image_clean peakpos_clean hillas_params of
        Inl e \<Rightarrow> Inl e
      | Inr timing_params \<Rightarrow> Inr (hillas_params, leakage_params, timing_params, num_islands)))))))"

text \<open>
  The body of the \<open>try\<close> for one telescope: \<open>Inl\<close> when something in it raises, \<open>Inr None\<close>
  when it ends in a \<open>continue\<close>, otherwise the parameters to store and write.
\<close>

definition reco_try_body ::
  "'c reco_collaborators \<Rightarrow> reco_event \<Rightarrow> int
     \<Rightarrow> py_exception + (hillas_container \<times> 'c \<times> 'c \<times> nat) option" where
  "reco_try_body env ev tid =
     (case geometry env tid of
        Inl e \<Rightarrow> Inl e
      | Inr geom \<Rightarrow>
          (let img = dl1_image ev tid; peakpos = dl1_peak_time ev tid in
           case camera_name_of env tid of
             LSTCam \<Rightarrow>
               (case tailcuts_clean env geom img of
                  Inl e \<Rightarrow> Inl e
                | Inr clean \<Rightarrow>
                    if mask_sum clean < 5 then Inr None
                    else
                      (case number_of_islands env geom clean of
                         Inl e \<Rightarrow> Inl e
                       | Inr num_islands \<Rightarrow>
                           map_sum id Some (analyse_image env geom img peakpos clean num_islands)))
           | MAGICCam \<Rightarrow>
               (case clean_image env img peakpos None of
                  Inl e \<Rightarrow> Inl e
                | Inr (clean, event_image, peakpos') \<Rightarrow>
                    if mask_sum clean < 5 then Inr None
                    else
                      (case get_num_islands geom clean event_image of
                         Inl e \<Rightarrow> Inl e
                       | Inr num_islands \<Rightarrow>
                           map_sum id Some (analyse_image env geom img peakpos' clean num_islands)))
           | OtherCam \<Rightarrow> Inr None))"

record 'c reco_state = "'c loop_state" +
  skip :: bool

text \<open>
  \<open>for tel_id, dl1 in event.dl1.tel.items()\<close>: any exception in the \<open>try\<close> prints two
  lines, sets \<open>skip\<close> and leaves the loop.
\<close>

fun reco_tel_loop ::
  "'c reco_collaborators \<Rightarrow> int list \<Rightarrow> reco_event \<Rightarrow> int list \<Rightarrow> 'c reco_state \<Rightarrow> 'c reco_state" where
  "reco_tel_loop env tels ev [] st = st"
| "reco_tel_loop env tels ev (tid # tids) st =
     (if tid \<notin> set tels then reco_tel_loop env tels ev tids st
      else
        (case reco_try_body env ev tid of
           Inl e \<Rightarrow>
             st\<lparr>written := written st @ [Print_image_not_reconstructed, Print_exception e],
                skip := True\<rparr>
         | Inr None \<Rightarrow> reco_tel_loop env tels ev tids st
         | Inr (Some (hillas_params, leakage_params, timing_params, num_islands)) \<Rightarrow>
             (let info = \<lparr>obs_id = index_obs_id ev, event_id = index_event_id ev,
                           tel_id = tid, n_islands = num_islands\<rparr>
              in reco_tel_loop env tels ev tids
                   (st\<lparr>computed_hillas_params :=
                          dict_set tid hillas_params (computed_hillas_params st),
                        event_info := Some info,
                        written := written st
                          @ [Write_hillas_params info hillas_params leakage_params timing_params]\<rparr>))))"

definition reco_initial_state :: "'c reco_state" where
  "reco_initial_state =
     \<lparr>written = [], computed_hillas_params = [], event_info = None, skip = False\<rparr>"

text \<open>
  One event: nothing at all with fewer than two selected telescopes holding data; after
  the telescope loop, the stereo step only when nothing raised and at least two
  telescopes were parametrised. \<open>check_write_stereo\<close> is handed the loop variable
  \<open>tel_id\<close>, which then is the last key of \<open>event.dl1.tel\<close>.
\<close>

definition reco_process_event ::
  "'c reco_collaborators \<Rightarrow> int list \<Rightarrow> reco_event \<Rightarrow> py_exception + 'c action list" where
  "reco_process_event env tels ev =
     (let sel_tels = remdups (filter (\<lambda>t. t \<in> set tels) (r0_tels_with_data ev)) in
      if length sel_tels < 2 then Inr []
      else
        (let st = reco_tel_loop env tels ev (dl1_tel_keys ev) reco_initial_state in
         if skip st then Inr (written st)
         else if length (computed_hillas_params st) < 2 then Inr (written st)
         else
           (case (dl1_tel_keys ev, event_info st) of
              (k # ks, Some info) \<Rightarrow>
                (case check_write_stereo env ev (last (k # ks)) (computed_hillas_params st) info of
                   Inl e \<Rightarrow> Inl e
                 | Inr outs \<Rightarrow> Inr (written st @ outs))
            | _ \<Rightarrow> Inl UnboundLocalError)))"

fun reco_events ::
  "'c reco_collaborators \<Rightarrow> int list \<Rightarrow> reco_event list \<Rightarrow> py_exception + 'c action list" where
  "reco_events env tels [] = Inr []"
| "reco_events env tels (ev # source) =
     (case reco_process_event env tels ev of
        Inl e \<Rightarrow> Inl e
      | Inr outs \<Rightarrow>
          (case reco_events env tels source of
             Inl e \<Rightarrow> Inl e
           | Inr later \<Rightarrow> Inr (outs @ later)))"

section \<open>Connected components of the cleaned pixels\<close>

text \<open>
  The reference notion: the adjacency graph restricted to a set \<open>V\<close> of nodes, undirected
  reachability inside it, and the number of its connected components. For a camera and a
  cleaning mask, \<open>V\<close> is the set of pixels where the mask is true and two pixels are
  adjacent when the neighbour matrix has an entry for them in either direction.
\<close>

definition edges_on :: "(nat \<Rightarrow> nat \<Rightarrow> bool) \<Rightarrow> nat set \<Rightarrow> (nat \<times> nat) set" where
  "edges_on adj V = {(x, y). x \<in> V \<and> y \<in> V \<and> adj x y}"

definition conn_on :: "(nat \<Rightarrow> nat \<Rightarrow> bool) \<Rightarrow> nat set \<Rightarrow> (nat \<times> nat) set" where
  "conn_on adj V = {(x, y). x \<in> V \<and> y \<in> V \<and> (x, y) \<in> (edges_on adj V)\<^sup>*}"

definition adjacent :: "camera \<Rightarrow> nat \<Rightarrow> nat \<Rightarrow> bool" where
  "adjacent cam i j =
     (entry (neighbor_matrix_sparse cam) i j \<or> entry (neighbor_matrix_sparse cam) j i)"

definition selected :: "mask \<Rightarrow> nat set" where
  "selected m = {i. i < length m \<and> m ! i}"

definition island_count :: "camera \<Rightarrow> mask \<Rightarrow> nat" where
  "island_count cam m = card (selected m // conn_on (adjacent cam) (selected m))"

section \<open>The cleaning engine\<close>

text \<open>
  Modelled from the spec: \<open>magic_clean.clean_image\<close> (module \<open>utils.MAGIC_Cleaning\<close>) is
  called by the scripts but is not among the sources; the definitions of this section
  follow section 4.1 of the specification, \<open>clean(image, time_map, topology,
  unsuitable_mask, config)\<close>. What the specification leaves open (the hot-pixel test, the
  reference-time formula and the number of rejection passes) is a parameter.
\<close>

record cleaning_config =
  picture_threshold :: real
  boundary_threshold :: real
  max_time_offset :: real
  max_time_difference :: real
  use_time :: bool
  use_sum_time_reference :: bool
  find_hot_pixels :: bool

record cleaning_policy =
  hot_pixel :: "camera \<Rightarrow> image \<Rightarrow> nat \<Rightarrow> bool"
  reference_time :: "bool \<Rightarrow> image \<Rightarrow> image \<Rightarrow> mask \<Rightarrow> pyfloat"
  max_passes :: nat

text \<open>
  Threshold and coincidence tests: a value that is not finite fails every test.
\<close>

fun at_least :: "pyfloat \<Rightarrow> real \<Rightarrow> bool" where
  "at_least (Finite r) thr = (thr \<le> r)"
| "at_least x thr = False"

fun close_by :: "pyfloat \<Rightarrow> pyfloat \<Rightarrow> real \<Rightarrow> bool" where
  "close_by (Finite a) (Finite b) d = (\<bar>a - b\<bar> \<le> d)"
| "close_by x y d = False"

text \<open>Step 1: the pixels excluded from all further steps.\<close>

definition excluded ::
  "cleaning_policy \<Rightarrow> cleaning_config \<Rightarrow> camera \<Rightarrow> image \<Rightarrow> mask \<Rightarrow> nat \<Rightarrow> bool" where
  "excluded pol cfg topology img unsuitable_mask i =
     ((i < length unsuitable_mask \<and> unsuitable_mask ! i)
      \<or> (find_hot_pixels cfg \<and> hot_pixel pol topology img i))"

text \<open>Step 2: the core candidates.\<close>

definition core_candidates ::
  "cleaning_policy \<Rightarrow> cleaning_config \<Rightarrow> camera \<Rightarrow> image \<Rightarrow> mask \<Rightarrow> mask" where
  "core_candidates pol cfg topology img unsuitable_mask =
     map (\<lambda>i. \<not> excluded pol cfg topology img unsuitable_mask i
               \<and> at_least (img ! i) (picture_threshold cfg))
       [0..<length img]"

text \<open>
  Step 3: one pass rejects the core candidates whose time is further than
  \<open>max_time_offset\<close> from the reference time of the current candidates; passes repeat to a
  fixed point, at most \<open>max_passes\<close> times.
\<close>

definition reject_pass ::
  "cleaning_policy \<Rightarrow> cleaning_config \<Rightarrow> image \<Rightarrow> image \<Rightarrow> mask \<Rightarrow> mask" where
  "reject_pass pol cfg img time_map core =
     (let ref = reference_time pol (use_sum_time_reference cfg) img time_map core
      in map (\<lambda>i. core ! i \<and> close_by (time_map ! i) ref (max_time_offset cfg)) [0..<length core])"

fun reject_outliers ::
  "nat \<Rightarrow> cleaning_policy \<Rightarrow> cleaning_config \<Rightarrow> image \<Rightarrow> image \<Rightarrow> mask \<Rightarrow> mask" where
  "reject_outliers 0 pol cfg img time_map core = core"
| "reject_outliers (Suc k) pol cfg img time_map core =
     (let core' = reject_pass pol cfg img time_map core
      in if core' = core then core else reject_outliers k pol cfg img time_map core')"

text \<open>
  Step 5: a pixel outside the mask that is not excluded joins it when its charge reaches
  \<open>boundary_threshold\<close> and it has an accepted neighbour (with \<open>use_time\<close>: one whose time is
  close_by \<open>max_time_difference\<close> of its own); this repeats until no pixel is added.
\<close>

definition recruits ::
  "cleaning_policy \<Rightarrow> cleaning_config \<Rightarrow> camera \<Rightarrow> image \<Rightarrow> image \<Rightarrow> mask \<Rightarrow> mask \<Rightarrow> nat \<Rightarrow> bool" where
  "recruits pol cfg topology img time_map unsuitable_mask accepted i =
     (\<not> excluded pol cfg topology img unsuitable_mask i
      \<and> at_least (img ! i) (boundary_threshold cfg)
      \<and> list_ex (\<lambda>j. accepted ! j \<and> adjacent topology i j
                      \<and> (use_time cfg \<longrightarrow> close_by (time_map ! i) (time_map ! j) (max_time_difference cfg)))
           [0..<length accepted])"

definition expand_once ::
  "cleaning_policy \<Rightarrow> cleaning_config \<Rightarrow> camera \<Rightarrow> image \<Rightarrow> image \<Rightarrow> mask \<Rightarrow> mask \<Rightarrow> mask" where
  "expand_once pol cfg topology img time_map unsuitable_mask accepted =
     map (\<lambda>i. accepted ! i \<or> recruits pol cfg topology img time_map unsuitable_mask accepted i)
       [0..<length accepted]"

definition unselected :: "mask \<Rightarrow> nat" where
  "unselected m = length (filter (\<lambda>b. \<not> b) m)"

lemma unselected_grow:
  "length m' = length m \<Longrightarrow> \<forall>i < length m. m ! i \<longrightarrow> m' ! i \<Longrightarrow> m' \<noteq> m \<Longrightarrow>
   unselected m' < unselected m"
proof (induction m' m rule: list_induct2)
  case Nil
  then show ?case by simp
next
  case (Cons x xs y ys)
  have le: "unselected xs \<le> unselected ys" if "xs = ys" using that by simp
  have tl: "\<forall>i < length ys. ys ! i \<longrightarrow> xs ! i" using Cons.prems(1) by auto
  have hd: "y \<longrightarrow> x" using Cons.prems(1) by auto
  show ?case
  proof (cases "xs = ys")
    case True
    with Cons.prems(2) hd have "x \<and> \<not> y" by auto
    with True show ?thesis by (simp add: unselected_def)
  next
    case False
    from Cons.IH [OF tl False] hd show ?thesis by (auto simp: unselected_def)
  qed
qed

lemma expand_once_grow:
  "length (expand_once pol cfg topology img time_map unsuitable_mask accepted) = length accepted"
  "\<forall>i < length accepted.
     accepted ! i \<longrightarrow> expand_once pol cfg topology img time_map unsuitable_mask accepted ! i"
  by (simp_all add: expand_once_def)

function expand ::
  "cleaning_policy \<Rightarrow> cleaning_config \<Rightarrow> camera \<Rightarrow> image \<Rightarrow> image \<Rightarrow> mask \<Rightarrow> mask \<Rightarrow> mask" where
  "expand pol cfg topology img time_map unsuitable_mask accepted =
     (let accepted' = expand_once pol cfg topology img time_map unsuitable_mask accepted
      in if accepted' = accepted then accepted
         else expand pol cfg topology img time_map unsuitable_mask accepted')"
  by pat_completeness auto
termination
proof (relation "measure (\<lambda>(pol, cfg, topology, img, time_map, unsuitable_mask, accepted).
                    unselected accepted)")
  show "wf (measure (\<lambda>(pol, cfg, topology, img, time_map, unsuitable_mask, accepted).
                    unselected accepted))"
    by simp
next
  fix pol cfg topology img time_map unsuitable_mask accepted accepted'
  assume a: "accepted' = expand_once pol cfg topology img time_map unsuitable_mask accepted"
    and n: "accepted' \<noteq> accepted"
  have l: "length accepted' = length accepted"
    unfolding a by (rule expand_once_grow(1))
  have g: "\<forall>i < length accepted. accepted ! i \<longrightarrow> accepted' ! i"
    unfolding a by (rule expand_once_grow(2))
  have "unselected accepted' < unselected accepted"
    by (rule unselected_grow [OF l g n])
  then show "((pol, cfg, topology, img, time_map, unsuitable_mask, accepted'),
              (pol, cfg, topology, img, time_map, unsuitable_mask, accepted))
             \<in> measure (\<lambda>(pol, cfg, topology, img, time_map, unsuitable_mask, accepted).
                    unselected accepted)"
    by simp
qed

declare expand.simps [simp del]

text \<open>
  Modelled from the spec: \<open>clean\<close> stands for the absent \<open>magic_clean.clean_image\<close>; it is
  steps 1 to 6 of section 4.1 together and returns the mask (the images are returned as
  they came).
\<close>

definition clean ::
  "cleaning_policy \<Rightarrow> image \<Rightarrow> image \<Rightarrow> camera \<Rightarrow> mask \<Rightarrow> cleaning_config \<Rightarrow> mask" where
  "clean pol img time_map topology unsuitable_mask cfg =
     (let candidates = core_candidates pol cfg topology img unsuitable_mask;
          core = (if use_time cfg
                  then reject_outliers (max_passes pol) pol cfg img time_map candidates
                  else candidates)
      in expand pol cfg topology img time_map unsuitable_mask core)"

section \<open>Notions used to state the properties\<close>

text \<open>The kinds of output: rows of a stereo table, rows of the header table.\<close>

fun is_stereo_row :: "'c action \<Rightarrow> bool" where
  "is_stereo_row (Write_stereo_params_mars info p) = True"
| "is_stereo_row (Write_stereo_params_cta info p) = True"
| "is_stereo_row (Write_stereo_params info p) = True"
| "is_stereo_row a = False"

fun is_header_row :: "'c action \<Rightarrow> bool" where
  "is_header_row (Write_mc_header oid) = True"
| "is_header_row a = False"

fun is_row :: "'c action \<Rightarrow> bool" where
  "is_row (Write_mc_header oid) = True"
| "is_row (Write_hillas_params info h l t) = True"
| "is_row (Write_stereo_params_mars info p) = True"
| "is_row (Write_stereo_params_cta info p) = True"
| "is_row (Write_stereo_params info p) = True"
| "is_row a = False"

text \<open>
  The two tests of the stereo gate, \<open>any width == 0\<close> and \<open>any isnan(width)\<close>, on the
  ellipses the telescope loop has collected.
\<close>

definition degenerate_zero :: "'c loop_state \<Rightarrow> bool" where
  "degenerate_zero st = list_ex (\<lambda>(tid, h). is_zero (width h)) (computed_hillas_params st)"

definition degenerate_nan :: "'c loop_state \<Rightarrow> bool" where
  "degenerate_nan st = list_ex (\<lambda>(tid, h). isnan (width h)) (computed_hillas_params st)"

text \<open>What an event or a run has printed and written, when it ended without raising.\<close>

definition outputs_of :: "py_exception + 'c action list \<Rightarrow> 'c action list" where
  "outputs_of r = (case r of Inl e \<Rightarrow> [] | Inr outs \<Rightarrow> outs)"

text \<open>A mask keeps the exclusions when no excluded pixel is selected in it.\<close>

definition keeps_exclusions ::
  "cleaning_policy \<Rightarrow> cleaning_config \<Rightarrow> camera \<Rightarrow> image \<Rightarrow> mask \<Rightarrow> mask \<Rightarrow> bool" where
  "keeps_exclusions pol cfg topology img unsuitable_mask m =
     (\<forall>i < length m. m ! i \<longrightarrow> \<not> excluded pol cfg topology img unsuitable_mask i)"

text \<open>The lines printed, as opposed to the rows written.\<close>

fun is_diagnostic :: "'c action \<Rightarrow> bool" where
  "is_diagnostic (Print_did_not_pass_cleaning e ob t) = True"
| "is_diagnostic (Print_hillas_failed e ob t) = True"
| "is_diagnostic (Print_width_zero e ob) = True"
| "is_diagnostic (Print_width_nan e ob) = True"
| "is_diagnostic Print_image_not_reconstructed = True"
| "is_diagnostic (Print_exception x) = True"
| "is_diagnostic a = False"


section \<open>Example inputs\<close>

text \<open>Small cameras, events and collaborators on which the properties are exercised.\<close>

definition example_camera :: camera where
  "example_camera =
     \<lparr>n_pixels = 4,
      neighbor_matrix_sparse =
        \<lparr>nrows = 4, ncols = 4,
         entry = (\<lambda>i j. (i, j) \<in> {(0, 1), (1, 0), (2, 3), (3, 2)})\<rparr>\<rparr>"

definition example_event :: event where
  "example_event =
     \<lparr>index_obs_id = 7, index_event_id = 42, tels_with_data = [1, 2],
      dl1_image = (\<lambda>t. if t = 1 then [Finite 10, Finite 8, Finite 0, Finite 1]
                         else [Finite 1, Finite 9, Finite 7, Finite 0]),
      dl1_peak_time = (\<lambda>t. [Finite 3, Finite 3, Finite 3, Finite 3])\<rparr>"

definition example_clean_image ::
  "image \<Rightarrow> image \<Rightarrow> mask option \<Rightarrow> py_exception + (mask \<times> image \<times> image)" where
  "example_clean_image img t unsuitable =
     (let bad = (case unsuitable of None \<Rightarrow> replicate (length img) False | Some um \<Rightarrow> um)
      in Inr (map (\<lambda>(x, u). (case x of Finite r \<Rightarrow> 6 \<le> r | _ \<Rightarrow> False) \<and> \<not> u) (zip img bad),
              img, t))"

definition example_collaborators :: "nat collaborators" where
  "example_collaborators =
     \<lparr>clean_image = example_clean_image,
      get_badrmspixel_mask = (\<lambda>ev t. Inr [False, False, False, False]),
      get_deadpixel_mask = (\<lambda>ev t. Inr [False, False, False, False]),
      hillas_parameters = (\<lambda>cam img. Inr \<lparr>intensity = img ! 1, width = img ! 2, psi = Finite 0\<rparr>),
      timing_parameters = (\<lambda>cam img t h m. Inr 1),
      leakage = (\<lambda>cam img m. Inr 2),
      stereo_par_calc_mars = (\<lambda>ev hs. Inr 3),
      predict = (\<lambda>ev hs. Inr 4)\<rparr>"

definition example_state :: "(int \<times> pyfloat) list \<Rightarrow> nat loop_state" where
  "example_state widths =
     \<lparr>written = [],
      computed_hillas_params =
        map (\<lambda>(t, w). (t, \<lparr>intensity = Finite 50, width = w, psi = Finite 0\<rparr>)) widths,
      event_info = Some \<lparr>obs_id = 7, event_id = 42, tel_id = 2, n_islands = 1\<rparr>\<rparr>"

definition example_loop_state :: "nat loop_state" where
  "example_loop_state =
     \<lparr>written =
        [Write_hillas_params \<lparr>obs_id = 7, event_id = 42, tel_id = 1, n_islands = 1\<rparr>
           \<lparr>intensity = Finite 8, width = Finite 0, psi = Finite 0\<rparr> 2 1,
         Write_hillas_params \<lparr>obs_id = 7, event_id = 42, tel_id = 2, n_islands = 2\<rparr>
           \<lparr>intensity = Finite 9, width = Finite 7, psi = Finite 0\<rparr> 2 1],
      computed_hillas_params =
        [(1, \<lparr>intensity = Finite 8, width = Finite 0, psi = Finite 0\<rparr>),
         (2, \<lparr>intensity = Finite 9, width = Finite 7, psi = Finite 0\<rparr>)],
      event_info = Some \<lparr>obs_id = 7, event_id = 42, tel_id = 2, n_islands = 2\<rparr>\<rparr>"

definition example_reco_camera :: camera where
  "example_reco_camera =
     \<lparr>n_pixels = 6,
      neighbor_matrix_sparse =
        \<lparr>nrows = 6, ncols = 6, entry = (\<lambda>i j. i < 6 \<and> j < 6 \<and> (j = Suc i \<or> i = Suc j))\<rparr>\<rparr>"

definition example_reco_event :: reco_event where
  "example_reco_event =
     \<lparr>index_obs_id = 7, index_event_id = 42, tels_with_data = [1, 5, 6],
      dl1_image =
        (\<lambda>t. if t = 1 then [Finite 10, Finite 9, Finite 1, Finite 1, Finite 1, Finite 1]
              else if t = 5 then [Finite 7, Finite 7, Finite 7, Finite 7, Finite 7, NaN]
              else [Finite 9, Finite 9, Finite 9, Finite 9, Finite 9, Finite 9]),
      dl1_peak_time = (\<lambda>t. [Finite 3, Finite 3, Finite 3, Finite 3, Finite 3, Finite 3]),
      r0_tels_with_data = [1, 5, 6],
      dl1_tel_keys = [1, 5, 6]\<rparr>"

definition example_reco_collaborators :: "nat reco_collaborators" where
  "example_reco_collaborators =
     \<lparr>clean_image = example_clean_image,
      get_badrmspixel_mask = (\<lambda>ev t. Inr []),
      get_deadpixel_mask = (\<lambda>ev t. Inr []),
      hillas_parameters = (\<lambda>cam img. Inr \<lparr>intensity = img ! 0, width = img ! 1, psi = Finite 0\<rparr>),
      timing_parameters = (\<lambda>cam img t h m. Inr 1),
      leakage = (\<lambda>cam img m. if list_ex isnan img then Inl ValueError else Inr 2),
      stereo_par_calc_mars = (\<lambda>ev hs. Inr 3),
      predict = (\<lambda>ev hs. Inr 4),
      geometry = (\<lambda>t. Inr example_reco_camera),
      camera_name_of = (\<lambda>t. if t \<le> 4 then LSTCam else MAGICCam),
      tailcuts_clean = (\<lambda>geom img. Inr (map (\<lambda>x. case x of Finite r \<Rightarrow> 8 \<le> r | _ \<Rightarrow> False) img)),
      number_of_islands = (\<lambda>geom m. Inr 1),
      timing_parameters_reco = (\<lambda>cam img t h. Inr 1),
      check_write_stereo = (\<lambda>ev t hs info. Inr [Write_stereo_params (info\<lparr>tel_id := - 1\<rparr>) 5])\<rparr>"

definition example_dim_event :: event where
  "example_dim_event =
     example_event\<lparr>dl1_image := (\<lambda>t. [Finite 1, Finite 2, Finite 0, Finite 1])\<rparr>"

definition example_policy :: cleaning_policy where
  "example_policy =
     \<lparr>hot_pixel = (\<lambda>topology img i. False),
      reference_time = (\<lambda>weighted img time_map core. Finite 3),
      max_passes = 3\<rparr>"

definition example_config :: cleaning_config where
  "example_config =
     \<lparr>picture_threshold = 6, boundary_threshold = 7 / 2, max_time_offset = 738 / 100,
      max_time_difference = 246 / 100, use_time = True, use_sum_time_reference = True,
      find_hot_pixels = False\<rparr>"

definition example_bright_reco_event :: reco_event where
  "example_bright_reco_event =
     example_reco_event
       \<lparr>dl1_image :=
          (\<lambda>t. if t = 1 then [Finite 10, Finite 9, Finite 1, Finite 1, Finite 1, Finite 1]
                else [Finite 9, Finite 9, Finite 9, Finite 9, Finite 9, Finite 9]),
        dl1_tel_keys := [5, 6, 1]\<rparr>"

definition example_silent_reco_collaborators :: "nat reco_collaborators" where
  "example_silent_reco_collaborators =
     example_reco_collaborators\<lparr>check_write_stereo := (\<lambda>ev t hs info. Inr [])\<rparr>"

definition example_tagging_reco_collaborators :: "nat reco_collaborators" where
  "example_tagging_reco_collaborators =
     example_reco_collaborators
       \<lparr>check_write_stereo := (\<lambda>ev t hs info. Inr [Write_stereo_params (info\<lparr>tel_id := t\<rparr>) 5])\<rparr>"

section \<open>The flooding labels exactly the connected components\<close>

lemma edges_on_mono: "V \<subseteq> W \<Longrightarrow> edges_on adj V \<subseteq> edges_on adj W"
  by (auto simp: edges_on_def)

lemma reach_mono:
  assumes "V \<subseteq> W" and "(x, y) \<in> (edges_on adj V)\<^sup>*"
  shows "(x, y) \<in> (edges_on adj W)\<^sup>*"
  using rtrancl_mono [OF edges_on_mono [OF assms(1)]] assms(2) by blast

lemma reach_stays:
  assumes "(x, y) \<in> (edges_on adj V)\<^sup>*" and "x \<in> V"
  shows "y \<in> V"
  using assms by (induction rule: rtrancl_induct) (auto simp: edges_on_def)

lemma sym_edges_on:
  assumes "symp adj"
  shows "sym (edges_on adj V)"
  using assms by (auto simp: sym_def edges_on_def dest: sympD)

lemma reach_sym:
  assumes "symp adj" and "(x, y) \<in> (edges_on adj V)\<^sup>*"
  shows "(y, x) \<in> (edges_on adj V)\<^sup>*"
  using sym_rtrancl [OF sym_edges_on [OF assms(1), of V]] assms(2) by (auto simp: sym_def)

lemma flood_step_reach:
  assumes vu: "v \<notin> U" and xu: "x \<in> U"
  shows "(\<exists>s \<in> insert v S. (s, x) \<in> (edges_on adj (insert v S \<union> U))\<^sup>*)
           \<longleftrightarrow> (adj v x \<or> (\<exists>s \<in> {y \<in> U. adj v y} \<union> S. (s, x) \<in> (edges_on adj (S \<union> U))\<^sup>*))"
    (is "?L \<longleftrightarrow> ?R")
proof
  assume ?R
  have sub: "S \<union> U \<subseteq> insert v S \<union> U" by blast
  from \<open>?R\<close> show ?L
  proof (elim disjE bexE)
    assume "adj v x"
    with xu have "(v, x) \<in> edges_on adj (insert v S \<union> U)" by (simp add: edges_on_def)
    then show ?L by blast
  next
    fix s assume s: "s \<in> {y \<in> U. adj v y} \<union> S" and r: "(s, x) \<in> (edges_on adj (S \<union> U))\<^sup>*"
    from r have r': "(s, x) \<in> (edges_on adj (insert v S \<union> U))\<^sup>*" by (rule reach_mono [OF sub])
    show ?L
    proof (cases "s \<in> S")
      case True with r' show ?thesis by blast
    next
      case False
      with s have "s \<in> U" "adj v s" by auto
      then have "(v, s) \<in> edges_on adj (insert v S \<union> U)" by (simp add: edges_on_def)
      then have "(v, x) \<in> (edges_on adj (insert v S \<union> U))\<^sup>*"
        using r' by (rule converse_rtrancl_into_rtrancl)
      then show ?thesis by blast
    qed
  qed
next
  assume ?L
  then obtain s where s: "s \<in> insert v S" and r: "(s, x) \<in> (edges_on adj (insert v S \<union> U))\<^sup>*" by blast
  let ?T = "\<lambda>z. z = v \<or> (\<exists>t \<in> {y \<in> U. adj v y} \<union> S. (t, z) \<in> (edges_on adj (S \<union> U))\<^sup>*)"
  from r have "?T s \<longrightarrow> ?T x"
  proof (induction rule: rtrancl_induct)
    case base show ?case by simp
  next
    case (step y z)
    show ?case
    proof
      assume "?T s"
      with step.IH have Ty: "?T y" by blast
      from step.hyps(2) have yz: "y \<in> insert v S \<union> U" "z \<in> insert v S \<union> U" "adj y z"
        by (auto simp: edges_on_def)
      show "?T z"
      proof (cases "z = v")
        case True then show ?thesis by simp
      next
        case zv: False
        show ?thesis
        proof (cases "y = v")
          case True
          with yz zv have "z \<in> {y \<in> U. adj v y} \<union> S" by auto
          then show ?thesis by blast
        next
          case False
          with Ty obtain t where t: "t \<in> {y \<in> U. adj v y} \<union> S" "(t, y) \<in> (edges_on adj (S \<union> U))\<^sup>*" by blast
          from False zv yz have "(y, z) \<in> edges_on adj (S \<union> U)" by (auto simp: edges_on_def)
          with t(2) have "(t, z) \<in> (edges_on adj (S \<union> U))\<^sup>*" by (rule rtrancl_into_rtrancl)
          with t(1) show ?thesis by blast
        qed
      qed
    qed
  qed
  moreover from s have "?T s" by blast
  ultimately have "?T x" by blast
  moreover from vu xu have "x \<noteq> v" by blast
  ultimately have "\<exists>t \<in> {y \<in> U. adj v y} \<union> S. (t, x) \<in> (edges_on adj (S \<union> U))\<^sup>*" by blast
  then show ?R by blast
qed

lemma flood_filter:
  "set stack \<inter> set unvisited = {} \<Longrightarrow>
   flood adj stack unvisited =
     filter (\<lambda>x. \<forall>s \<in> set stack. (s, x) \<notin> (edges_on adj (set stack \<union> set unvisited))\<^sup>*) unvisited"
proof (induction adj stack unvisited rule: flood.induct)
  case (1 adj unvisited)
  show ?case by simp
next
  case (2 adj v stack unvisited)
  let ?nb = "filter (adj v) unvisited" and ?rest = "filter (\<lambda>x. \<not> adj v x) unvisited"
  from "2.prems" have vu: "v \<notin> set unvisited" and disj: "set stack \<inter> set unvisited = {}" by auto
  have disj': "set (?nb @ stack) \<inter> set ?rest = {}" using disj by auto
  have A': "set (?nb @ stack) \<union> set ?rest = set stack \<union> set unvisited" by auto
  have "flood adj (v # stack) unvisited = flood adj (?nb @ stack) ?rest" by simp
  also have "\<dots> = filter (\<lambda>x. \<forall>s \<in> set (?nb @ stack). (s, x) \<notin> (edges_on adj (set stack \<union> set unvisited))\<^sup>*) ?rest"
    using "2.IH" [OF disj'] unfolding A' .
  also have "\<dots> = filter (\<lambda>x. \<not> adj v x \<and> (\<forall>s \<in> set (?nb @ stack). (s, x) \<notin> (edges_on adj (set stack \<union> set unvisited))\<^sup>*)) unvisited"
    by (simp add: conj_commute)
  also have "\<dots> = filter (\<lambda>x. \<forall>s \<in> set (v # stack). (s, x) \<notin> (edges_on adj (set (v # stack) \<union> set unvisited))\<^sup>*) unvisited"
  proof (rule filter_cong [OF refl])
    fix x assume xu: "x \<in> set unvisited"
    have eq: "set (?nb @ stack) = {y \<in> set unvisited. adj v y} \<union> set stack" by auto
    show "(\<not> adj v x \<and> (\<forall>s \<in> set (?nb @ stack). (s, x) \<notin> (edges_on adj (set stack \<union> set unvisited))\<^sup>*))
        = (\<forall>s \<in> set (v # stack). (s, x) \<notin> (edges_on adj (set (v # stack) \<union> set unvisited))\<^sup>*)"
      using flood_step_reach [OF vu xu, of "set stack" adj] unfolding eq by simp blast
  qed
  finally show ?case .
qed

lemma flood_from_root:
  assumes "v \<notin> set rest"
  shows "flood adj [v] rest
           = filter (\<lambda>x. (v, x) \<notin> (edges_on adj (insert v (set rest)))\<^sup>*) rest"
  using flood_filter [of "[v]" rest adj] assms by simp

lemma class_of_member:
  assumes sym: "symp adj"
    and vV: "v \<in> V" and xC: "(v, x) \<in> (edges_on adj V)\<^sup>*"
  shows "conn_on adj V `` {x} = {y. (v, y) \<in> (edges_on adj V)\<^sup>*}"
proof (rule set_eqI)
  fix y
  have xV: "x \<in> V" using reach_stays [OF xC vV] .
  have xv: "(x, v) \<in> (edges_on adj V)\<^sup>*" using reach_sym [OF sym xC] .
  show "y \<in> conn_on adj V `` {x} \<longleftrightarrow> y \<in> {y. (v, y) \<in> (edges_on adj V)\<^sup>*}"
  proof
    assume "y \<in> conn_on adj V `` {x}"
    then have "(x, y) \<in> (edges_on adj V)\<^sup>*" by (simp add: conn_on_def)
    with xC have "(v, y) \<in> (edges_on adj V)\<^sup>*" by (rule rtrancl_trans)
    then show "y \<in> {y. (v, y) \<in> (edges_on adj V)\<^sup>*}" by simp
  next
    assume "y \<in> {y. (v, y) \<in> (edges_on adj V)\<^sup>*}"
    then have vy: "(v, y) \<in> (edges_on adj V)\<^sup>*" by simp
    have yV: "y \<in> V" using reach_stays [OF vy vV] .
    from xv vy have "(x, y) \<in> (edges_on adj V)\<^sup>*" by (rule rtrancl_trans)
    with xV yV show "y \<in> conn_on adj V `` {x}" by (simp add: conn_on_def)
  qed
qed

lemma class_outside:
  assumes sym: "symp adj"
    and C: "C = {y. (v, y) \<in> (edges_on adj V)\<^sup>*}"
    and x: "x \<in> V - C"
  shows "conn_on adj V `` {x} = conn_on adj (V - C) `` {x}"
proof -
  have fwd: "(x, y) \<in> (edges_on adj (V - C))\<^sup>*" if "(x, y) \<in> (edges_on adj V)\<^sup>*" for y
    using that
  proof (induction rule: rtrancl_induct)
    case base show ?case by simp
  next
    case (step y z)
    have yW: "y \<in> V - C" using reach_stays [OF step.IH x] .
    from step.hyps(2) have e: "y \<in> V" "z \<in> V" "adj y z" by (auto simp: edges_on_def)
    have "z \<notin> C"
    proof
      assume "z \<in> C"
      then have vz: "(v, z) \<in> (edges_on adj V)\<^sup>*" by (simp add: C)
      from e sympD [OF sym] have "(z, y) \<in> edges_on adj V" by (simp add: edges_on_def)
      with vz have "(v, y) \<in> (edges_on adj V)\<^sup>*" by (rule rtrancl_into_rtrancl)
      with yW show False by (simp add: C)
    qed
    with e yW have "(y, z) \<in> edges_on adj (V - C)" by (simp add: edges_on_def)
    with step.IH show ?case by (rule rtrancl_into_rtrancl)
  qed
  have bwd: "(x, y) \<in> (edges_on adj V)\<^sup>*" if "(x, y) \<in> (edges_on adj (V - C))\<^sup>*" for y
    using reach_mono [of "V - C" V x y adj] that by blast
  show ?thesis
  proof (rule set_eqI)
    fix y
    show "y \<in> conn_on adj V `` {x} \<longleftrightarrow> y \<in> conn_on adj (V - C) `` {x}"
    proof
      assume "y \<in> conn_on adj V `` {x}"
      then have "(x, y) \<in> (edges_on adj V)\<^sup>*" by (simp add: conn_on_def)
      then have r: "(x, y) \<in> (edges_on adj (V - C))\<^sup>*" by (rule fwd)
      have "y \<in> V - C" using reach_stays [OF r x] .
      with r x show "y \<in> conn_on adj (V - C) `` {x}" by (simp add: conn_on_def)
    next
      assume "y \<in> conn_on adj (V - C) `` {x}"
      then have r: "(x, y) \<in> (edges_on adj (V - C))\<^sup>*" and "y \<in> V - C"
        by (simp_all add: conn_on_def)
      with x bwd [OF r] show "y \<in> conn_on adj V `` {x}" by (simp add: conn_on_def)
    qed
  qed
qed

lemma quotient_split:
  assumes sym: "symp adj"
    and vV: "v \<in> V"
    and C: "C = {y. (v, y) \<in> (edges_on adj V)\<^sup>*}"
  shows "V // conn_on adj V = insert C ((V - C) // conn_on adj (V - C))"
proof -
  have vC: "v \<in> C" by (simp add: C)
  have CV: "C \<subseteq> V" using reach_stays [OF _ vV] by (auto simp: C)
  have inC: "conn_on adj V `` {x} = C" if "x \<in> C" for x
    using class_of_member [OF sym vV] that by (simp add: C)
  have outC: "conn_on adj V `` {x} = conn_on adj (V - C) `` {x}" if "x \<in> V - C" for x
    using class_outside [OF sym C that] .
  show ?thesis
  proof (rule set_eqI)
    fix Q
    show "Q \<in> V // conn_on adj V \<longleftrightarrow> Q \<in> insert C ((V - C) // conn_on adj (V - C))"
    proof
      assume "Q \<in> V // conn_on adj V"
      then obtain x where x: "x \<in> V" "Q = conn_on adj V `` {x}" by (auto simp: quotient_def)
      show "Q \<in> insert C ((V - C) // conn_on adj (V - C))"
      proof (cases "x \<in> C")
        case True with x inC show ?thesis by simp
      next
        case False
        with x have "x \<in> V - C" by simp
        with x outC have "Q = conn_on adj (V - C) `` {x}" by simp
        with \<open>x \<in> V - C\<close> show ?thesis by (auto simp: quotient_def)
      qed
    next
      assume "Q \<in> insert C ((V - C) // conn_on adj (V - C))"
      then show "Q \<in> V // conn_on adj V"
      proof
        assume "Q = C"
        with inC [OF vC] vV show ?thesis by (auto simp: quotient_def)
      next
        assume "Q \<in> (V - C) // conn_on adj (V - C)"
        then obtain x where x: "x \<in> V - C" "Q = conn_on adj (V - C) `` {x}"
          by (auto simp: quotient_def)
        with outC have "Q = conn_on adj V `` {x}" by simp
        with x show ?thesis by (auto simp: quotient_def)
      qed
    qed
  qed
qed

lemma count_components_card:
  "symp adj \<Longrightarrow> distinct u \<Longrightarrow> count_components adj u = card (set u // conn_on adj (set u))"
proof (induction adj u rule: count_components.induct)
  case (1 adj)
  show ?case by (simp add: quotient_def)
next
  case (2 adj v rest)
  from "2.prems" have sym: "symp adj" and vr: "v \<notin> set rest" and dr: "distinct rest"
    by simp_all
  let ?V = "set (v # rest)"
  define C where "C = {y. (v, y) \<in> (edges_on adj ?V)\<^sup>*}"
  define u' where "u' = flood adj [v] rest"
  have u': "u' = filter (\<lambda>x. x \<notin> C) rest"
    unfolding u'_def C_def using flood_from_root [OF vr, of adj] by simp
  have vC: "v \<in> C" by (simp add: C_def)
  have set_u': "set u' = ?V - C" using vC by (auto simp: u')
  have du': "distinct u'" using dr by (simp add: u')
  have "count_components adj u' = card (set u' // conn_on adj (set u'))"
    using "2.IH" sym du' unfolding u'_def by blast
  then have IH: "count_components adj u' = card ((?V - C) // conn_on adj (?V - C))"
    by (simp only: set_u')
  have split: "?V // conn_on adj ?V = insert C ((?V - C) // conn_on adj (?V - C))"
  proof -
    have vV: "v \<in> ?V" by simp
    show ?thesis by (rule quotient_split [OF sym vV C_def])
  qed
  have fin: "finite ((?V - C) // conn_on adj (?V - C))"
    by (rule finite_quotient) (auto simp: conn_on_def)
  have notin: "C \<notin> (?V - C) // conn_on adj (?V - C)"
  proof
    assume "C \<in> (?V - C) // conn_on adj (?V - C)"
    then obtain x where "C = conn_on adj (?V - C) `` {x}" by (auto simp: quotient_def)
    with vC have "v \<in> ?V - C" by (auto simp: conn_on_def)
    with vC show False by simp
  qed
  have "count_components adj (v # rest) = Suc (count_components adj u')"
    by (simp add: u'_def del: flood.simps)
  also have "\<dots> = card (insert C ((?V - C) // conn_on adj (?V - C)))"
    using IH fin notin by simp
  finally show ?case using split by simp
qed

lemma flood_map:
  "flood adj (map f stack) (map f unvisited)
     = map f (flood (\<lambda>a b. adj (f a) (f b)) stack unvisited)"
proof (induction "\<lambda>a b. adj (f a) (f b)" stack unvisited rule: flood.induct)
  case (1 unvisited)
  show ?case by simp
next
  case (2 v stack unvisited)
  have "flood adj (map f (v # stack)) (map f unvisited)
          = flood adj (map f (filter (\<lambda>b. adj (f v) (f b)) unvisited @ stack))
              (map f (filter (\<lambda>x. \<not> adj (f v) (f x)) unvisited))"
    by (simp add: filter_map comp_def)
  also have "\<dots> = map f (flood (\<lambda>a b. adj (f a) (f b))
                       (filter (\<lambda>b. adj (f v) (f b)) unvisited @ stack)
                       (filter (\<lambda>x. \<not> adj (f v) (f x)) unvisited))"
    by (rule 2)
  finally show ?case by simp
qed

lemma count_components_map:
  "count_components adj (map f u) = count_components (\<lambda>a b. adj (f a) (f b)) u"
proof (induction "\<lambda>a b. adj (f a) (f b)" u rule: count_components.induct)
  case 1
  show ?case by simp
next
  case (2 v unvisited)
  have "count_components adj (map f (v # unvisited))
          = Suc (count_components adj (flood adj (map f [v]) (map f unvisited)))"
    by (simp del: flood.simps)
  also have "\<dots> = Suc (count_components adj
                        (map f (flood (\<lambda>a b. adj (f a) (f b)) [v] unvisited)))"
    by (simp only: flood_map)
  also have "\<dots> = Suc (count_components (\<lambda>a b. adj (f a) (f b))
                        (flood (\<lambda>a b. adj (f a) (f b)) [v] unvisited))"
    by (simp only: 2)
  finally show ?case by (simp del: flood.simps)
qed

lemma nonzero_set: "set (nonzero m) = selected m"
  by (auto simp: nonzero_def selected_def)

lemma nonzero_distinct: "distinct (nonzero m)"
  by (simp add: nonzero_def)

lemma get_num_islands_count:
  assumes "nrows (neighbor_matrix_sparse cam) = length m"
    and "ncols (neighbor_matrix_sparse cam) = length m"
  shows "get_num_islands cam m img = Inr (count_components (adjacent cam) (nonzero m))"
proof -
  let ?idx = "nonzero m"
  have "get_num_islands cam m img
          = Inr (count_components (\<lambda>a b. adjacent cam (?idx ! a) (?idx ! b)) [0..<length ?idx])"
    using assms
    by (simp add: get_num_islands_def select_rows_def select_cols_def connected_components_def
        Let_def adjacent_def)
  also have "count_components (\<lambda>a b. adjacent cam (?idx ! a) (?idx ! b)) [0..<length ?idx]
          = count_components (adjacent cam) (map (\<lambda>a. ?idx ! a) [0..<length ?idx])"
    by (simp only: count_components_map)
  also have "map (\<lambda>a. ?idx ! a) [0..<length ?idx] = ?idx"
    by (rule map_nth)
  finally show ?thesis .
qed

lemma symp_adjacent: "symp (adjacent cam)"
  by (auto simp: symp_def adjacent_def)

lemma get_num_islands_components:
  assumes "nrows (neighbor_matrix_sparse cam) = length m"
    and "ncols (neighbor_matrix_sparse cam) = length m"
  shows "get_num_islands cam m img = Inr (island_count cam m)"
  using get_num_islands_count [OF assms, of img]
    count_components_card [OF symp_adjacent nonzero_distinct, of cam m]
  by (simp add: island_count_def nonzero_set)

lemma island_count_empty: "selected m = {} \<Longrightarrow> island_count cam m = 0"
  by (simp add: island_count_def quotient_def)

lemma island_count_clique:
  assumes ne: "selected m \<noteq> {}"
    and clique: "\<forall>i \<in> selected m. \<forall>j \<in> selected m. i \<noteq> j \<longrightarrow> adjacent cam i j"
  shows "island_count cam m = 1"
proof -
  let ?V = "selected m"
  have cls: "conn_on (adjacent cam) ?V `` {x} = ?V" if x: "x \<in> ?V" for x
  proof (rule set_eqI)
    fix y
    show "y \<in> conn_on (adjacent cam) ?V `` {x} \<longleftrightarrow> y \<in> ?V"
    proof
      assume "y \<in> conn_on (adjacent cam) ?V `` {x}"
      then show "y \<in> ?V" by (simp add: conn_on_def)
    next
      assume y: "y \<in> ?V"
      have "(x, y) \<in> (edges_on (adjacent cam) ?V)\<^sup>*"
      proof (cases "x = y")
        case True then show ?thesis by simp
      next
        case False
        with x y clique have "(x, y) \<in> edges_on (adjacent cam) ?V"
          by (simp add: edges_on_def)
        then show ?thesis by (rule r_into_rtrancl)
      qed
      with x y show "y \<in> conn_on (adjacent cam) ?V `` {x}" by (simp add: conn_on_def)
    qed
  qed
  have "?V // conn_on (adjacent cam) ?V = {?V}"
    using ne cls by (auto simp: quotient_def)
  then show ?thesis by (simp add: island_count_def)
qed

lemma island_count_two:
  assumes sel: "selected m = {a, b}" and ab: "a \<noteq> b" and nadj: "\<not> adjacent cam a b"
  shows "island_count cam m = 2"
proof -
  let ?E = "edges_on (adjacent cam) {a, b}"
  have nba: "\<not> adjacent cam b a" using nadj by (auto simp: adjacent_def)
  have stay: "y = x" if "(x, y) \<in> ?E\<^sup>*" for x y
    using that
  proof (induction rule: rtrancl_induct)
    case base show ?case by simp
  next
    case (step y z)
    from step.hyps(2) nadj nba have "z = y" by (auto simp: edges_on_def)
    with step.IH show ?case by simp
  qed
  have ca: "conn_on (adjacent cam) {a, b} `` {a} = {a}"
    using stay by (auto simp: conn_on_def)
  have cb: "conn_on (adjacent cam) {a, b} `` {b} = {b}"
    using stay by (auto simp: conn_on_def)
  have "{a, b} // conn_on (adjacent cam) {a, b} = {{a}, {b}}"
    using ca cb by (auto simp: quotient_def)
  with ab show ?thesis by (simp add: island_count_def sel)
qed

text \<open>
  C5. For a camera whose neighbour matrix has one row and one column per pixel of the
  mask, \<open>get_num_islands\<close> returns the number of connected components (undirected
  reachability) of the adjacency graph restricted to the pixels where the mask is true.
  In particular a mask that selects nothing gives 0, a mask selecting a non-empty set of
  pairwise adjacent pixels gives 1, and a mask selecting exactly two pixels that are not
  adjacent gives 2.
\<close>

theorem islands_are_components:
  assumes "nrows (neighbor_matrix_sparse cam) = length m"
    and "ncols (neighbor_matrix_sparse cam) = length m"
  shows "get_num_islands cam m img = Inr (island_count cam m)
       \<and> (selected m = {} \<longrightarrow> get_num_islands cam m img = Inr 0)
       \<and> (selected m \<noteq> {} \<and> (\<forall>i \<in> selected m. \<forall>j \<in> selected m. i \<noteq> j \<longrightarrow> adjacent cam i j)
            \<longrightarrow> get_num_islands cam m img = Inr 1)
       \<and> (\<forall>a b. selected m = {a, b} \<and> a \<noteq> b \<and> \<not> adjacent cam a b
            \<longrightarrow> get_num_islands cam m img = Inr 2)"
proof -
  have main: "get_num_islands cam m img = Inr (island_count cam m)"
    by (rule get_num_islands_components [OF assms])
  show ?thesis
    unfolding main
    by (auto simp: island_count_empty island_count_clique island_count_two)
qed

theorem islands_are_components_witness:
  "nrows (neighbor_matrix_sparse example_camera) = length [True, False, True, True]
   \<and> ncols (neighbor_matrix_sparse example_camera) = length [True, False, True, True]
   \<and> get_num_islands example_camera [True, False, True, True] [] = Inr 2
   \<and> island_count example_camera [True, False, True, True] = 2"
proof -
  have r: "nrows (neighbor_matrix_sparse example_camera) = length [True, False, True, True]"
    and c: "ncols (neighbor_matrix_sparse example_camera) = length [True, False, True, True]"
    by (simp_all add: example_camera_def)
  have ev: "get_num_islands example_camera [True, False, True, True] [] = Inr 2"
    by (simp add: get_num_islands_def select_rows_def select_cols_def connected_components_def
        example_camera_def nonzero_def upt_rec Let_def)
  from islands_are_components [OF r c, of "[]"] ev
  have "island_count example_camera [True, False, True, True] = 2" by simp
  with r c ev show ?thesis by simp
qed

text \<open>
  C9. The \<open>event_image\<close> argument of \<open>get_num_islands\<close> has no influence on its result: for
  one camera and one mask, any two images give the same outcome (the same count, or the
  same exception).
\<close>

theorem get_num_islands_ignores_image:
  "get_num_islands cam m img1 = get_num_islands cam m img2"
  by (simp add: get_num_islands_def)

theorem get_num_islands_ignores_image_witness:
  "get_num_islands example_camera [True, False, True, True] [Finite 1, NaN, Finite 0, PosInf]
     = get_num_islands example_camera [True, False, True, True] []"
  by (rule get_num_islands_ignores_image)

section \<open>Properties of the event loops\<close>

lemma stereo_stage_few:
  "length (computed_hillas_params st) < 2 \<Longrightarrow> stereo_stage env ev st = Inr []"
  by (simp add: stereo_stage_def)

lemma stereo_stage_zero:
  "2 \<le> length (computed_hillas_params st) \<Longrightarrow> degenerate_zero st \<Longrightarrow>
   stereo_stage env ev st = Inr [Print_width_zero (index_event_id ev) (index_obs_id ev)]"
  by (simp add: stereo_stage_def degenerate_zero_def)

lemma stereo_stage_nan:
  "2 \<le> length (computed_hillas_params st) \<Longrightarrow> \<not> degenerate_zero st \<Longrightarrow> degenerate_nan st \<Longrightarrow>
   stereo_stage env ev st = Inr [Print_width_nan (index_event_id ev) (index_obs_id ev)]"
  by (simp add: stereo_stage_def degenerate_zero_def degenerate_nan_def)

lemma stereo_stage_computed:
  "2 \<le> length (computed_hillas_params st) \<Longrightarrow> \<not> degenerate_zero st \<Longrightarrow> \<not> degenerate_nan st \<Longrightarrow>
   (\<exists>e. stereo_stage env ev st = Inl e)
   \<or> (\<exists>info m c. stereo_stage env ev st
          = Inr [Write_stereo_params_mars info m, Write_stereo_params_cta info c])"
  by (auto simp: stereo_stage_def degenerate_zero_def degenerate_nan_def
      split: sum.splits option.splits)

text \<open>
  C1. After the telescope loop the stereo checks run in a fixed order, each with its own
  outcome: fewer than two ellipses prints and writes nothing; with at least two, an ellipse
  of width 0 gives the width=0 line whatever the other widths are (also when another one
  is NaN); otherwise an ellipse of width NaN gives the width=NaN line; otherwise the
  stereo parameters are computed, which is none of the three outcomes before. The two
  diagnostics differ.
\<close>

theorem stereo_gating_order:
  "(length (computed_hillas_params st) < 2 \<longrightarrow> stereo_stage env ev st = Inr [])
   \<and> (2 \<le> length (computed_hillas_params st) \<and> degenerate_zero st \<longrightarrow>
        stereo_stage env ev st = Inr [Print_width_zero (index_event_id ev) (index_obs_id ev)])
   \<and> (2 \<le> length (computed_hillas_params st) \<and> \<not> degenerate_zero st \<and> degenerate_nan st \<longrightarrow>
        stereo_stage env ev st = Inr [Print_width_nan (index_event_id ev) (index_obs_id ev)])
   \<and> (2 \<le> length (computed_hillas_params st) \<and> \<not> degenerate_zero st \<and> \<not> degenerate_nan st \<longrightarrow>
        stereo_stage env ev st \<noteq> Inr []
        \<and> stereo_stage env ev st \<noteq> Inr [Print_width_zero (index_event_id ev) (index_obs_id ev)]
        \<and> stereo_stage env ev st \<noteq> Inr [Print_width_nan (index_event_id ev) (index_obs_id ev)])
   \<and> (Print_width_zero (index_event_id ev) (index_obs_id ev) :: 'c action)
        \<noteq> Print_width_nan (index_event_id ev) (index_obs_id ev)"
proof (intro conjI impI)
  assume "2 \<le> length (computed_hillas_params st) \<and> \<not> degenerate_zero st \<and> \<not> degenerate_nan st"
  then have c: "(\<exists>e. stereo_stage env ev st = Inl e)
   \<or> (\<exists>info m c. stereo_stage env ev st
          = Inr [Write_stereo_params_mars info m, Write_stereo_params_cta info c])"
    using stereo_stage_computed by blast
  from c show "stereo_stage env ev st \<noteq> Inr []" by auto
  from c show "stereo_stage env ev st \<noteq> Inr [Print_width_zero (index_event_id ev) (index_obs_id ev)]"
    by auto
  from c show "stereo_stage env ev st \<noteq> Inr [Print_width_nan (index_event_id ev) (index_obs_id ev)]"
    by auto
qed (simp_all add: stereo_stage_few stereo_stage_zero stereo_stage_nan)

lemma tel_step_written:
  assumes "tel_step env cam unsuitable ev tid st = Inr st'"
  shows "\<exists>a. written st' = written st @ [a] \<and> \<not> is_stereo_row a \<and> \<not> is_header_row a"
  using assms
  by (auto simp: tel_step_def say_def Let_def
      split: sum.splits prod.splits if_splits py_exception.splits)

lemma tel_loop_written:
  "tel_loop env cam unsuitable ev tids st = Inr st' \<Longrightarrow>
   \<exists>as. written st' = written st @ as \<and> (\<forall>a \<in> set as. \<not> is_stereo_row a \<and> \<not> is_header_row a)"
proof (induction tids arbitrary: st)
  case Nil
  then show ?case by simp
next
  case (Cons tid tids)
  from Cons.prems obtain st1 where
    s1: "tel_step env cam unsuitable ev tid st = Inr st1"
    and l1: "tel_loop env cam unsuitable ev tids st1 = Inr st'"
    by (auto split: sum.splits)
  from tel_step_written [OF s1] obtain a where
    a: "written st1 = written st @ [a]" "\<not> is_stereo_row a" "\<not> is_header_row a" by blast
  from Cons.IH [OF l1] obtain as where
    as: "written st' = written st1 @ as" "\<forall>a \<in> set as. \<not> is_stereo_row a \<and> \<not> is_header_row a"
    by blast
  have "written st' = written st @ (a # as)" using a as by simp
  moreover have "\<forall>x \<in> set (a # as). \<not> is_stereo_row x \<and> \<not> is_header_row x"
    using a as by simp
  ultimately show ?case by blast
qed

text \<open>
  C4. When the stereo gate fails for an event (fewer than two ellipses, or an ellipse of
  width 0 or NaN), the event's output is what the telescope loop had written, followed by
  at most a diagnostic line: no stereo row at all, and the rows written are exactly the
  per-telescope rows of the loop, unchanged.
\<close>

theorem gating_failure_keeps_mono_rows:
  assumes loop: "tel_loop env cam unsuitable ev (tels_with_data ev) initial_state = Inr st"
    and gate: "length (computed_hillas_params st) < 2 \<or> degenerate_zero st \<or> degenerate_nan st"
  shows "\<exists>diag. process_event env cam unsuitable ev = Inr (written st @ diag)
           \<and> set diag \<subseteq> {Print_width_zero (index_event_id ev) (index_obs_id ev),
                          Print_width_nan (index_event_id ev) (index_obs_id ev)}
           \<and> filter is_row (written st @ diag) = filter is_row (written st)
           \<and> filter is_stereo_row (written st @ diag) = []"
proof -
  from tel_loop_written [OF loop] have mono: "\<forall>a \<in> set (written st). \<not> is_stereo_row a"
    by (auto simp: initial_state_def)
  have "stereo_stage env ev st = Inr []
      \<or> stereo_stage env ev st = Inr [Print_width_zero (index_event_id ev) (index_obs_id ev)]
      \<or> stereo_stage env ev st = Inr [Print_width_nan (index_event_id ev) (index_obs_id ev)]"
    using gate stereo_stage_few [of st env ev] stereo_stage_zero [of st env ev]
      stereo_stage_nan [of st env ev]
    by (cases "length (computed_hillas_params st) < 2"; cases "degenerate_zero st") auto
  then obtain diag where d: "stereo_stage env ev st = Inr diag"
    "set diag \<subseteq> {Print_width_zero (index_event_id ev) (index_obs_id ev),
                 Print_width_nan (index_event_id ev) (index_obs_id ev)}"
    by auto
  have pe: "process_event env cam unsuitable ev = Inr (written st @ diag)"
    using loop d(1) by (simp add: process_event_def)
  have nr: "filter is_row diag = []" using d(2) by (auto simp: filter_empty_conv)
  have ns: "filter is_stereo_row diag = []" using d(2) by (auto simp: filter_empty_conv)
  have "filter is_stereo_row (written st) = []" using mono by (simp add: filter_empty_conv)
  with pe d(2) nr ns show ?thesis by auto
qed

lemma zero_unselected_nth:
  assumes "length clean_mask = length arr"
  shows "\<exists>r. zero_unselected clean_mask arr = Inr r \<and> length r = length arr
           \<and> (\<forall>i < length arr. r ! i = (if clean_mask ! i then arr ! i else Finite 0))"
  using assms by (simp add: zero_unselected_def)

text \<open>
  C6. The cleaned charge and time arrays handed to the shape computation are built by the
  caller from what the cleaning returned: a pixel where the mask is false becomes exactly
  0, a pixel where the mask is true keeps its value, and the length is kept.
\<close>

theorem cleaned_arrays_zero_outside_mask:
  assumes "length clean_mask = length event_image"
    and "length clean_mask = length event_pulse_time"
  shows "\<exists>event_image_cleaned event_pulse_time_cleaned.
           cleaned_arrays clean_mask event_image event_pulse_time
             = Inr (event_image_cleaned, event_pulse_time_cleaned)
         \<and> length event_image_cleaned = length event_image
         \<and> length event_pulse_time_cleaned = length event_pulse_time
         \<and> (\<forall>i < length clean_mask.
               event_image_cleaned ! i = (if clean_mask ! i then event_image ! i else Finite 0)
             \<and> event_pulse_time_cleaned ! i
                 = (if clean_mask ! i then event_pulse_time ! i else Finite 0))"
proof -
  from zero_unselected_nth [OF assms(1)] obtain ic where ic:
    "zero_unselected clean_mask event_image = Inr ic" "length ic = length event_image"
    "\<forall>i < length event_image. ic ! i = (if clean_mask ! i then event_image ! i else Finite 0)"
    by blast
  from zero_unselected_nth [OF assms(2)] obtain tc where tc:
    "zero_unselected clean_mask event_pulse_time = Inr tc" "length tc = length event_pulse_time"
    "\<forall>i < length event_pulse_time.
       tc ! i = (if clean_mask ! i then event_pulse_time ! i else Finite 0)"
    by blast
  have "cleaned_arrays clean_mask event_image event_pulse_time = Inr (ic, tc)"
    using ic(1) tc(1) by (simp add: cleaned_arrays_def)
  with ic tc assms show ?thesis by auto
qed

theorem stereo_gating_order_witness:
  "2 \<le> length (computed_hillas_params (example_state [(1, NaN), (2, Finite 0)]))
   \<and> degenerate_zero (example_state [(1, NaN), (2, Finite 0)])
   \<and> degenerate_nan (example_state [(1, NaN), (2, Finite 0)])
   \<and> stereo_stage example_collaborators example_event (example_state [(1, NaN), (2, Finite 0)])
       = Inr [Print_width_zero 42 7]
   \<and> \<not> degenerate_zero (example_state [(1, NaN), (2, Finite 3)])
   \<and> stereo_stage example_collaborators example_event (example_state [(1, NaN), (2, Finite 3)])
       = Inr [Print_width_nan 42 7]
   \<and> \<not> degenerate_nan (example_state [(1, Finite 2), (2, Finite 3)])
   \<and> stereo_stage example_collaborators example_event (example_state [(1, Finite 2), (2, Finite 3)])
       \<noteq> Inr []
   \<and> stereo_stage example_collaborators example_event (example_state [(1, Finite 2)]) = Inr []"
proof -
  have ids: "index_event_id example_event = 42" "index_obs_id example_event = 7"
    by (simp_all add: example_event_def)
  have a: "2 \<le> length (computed_hillas_params (example_state [(1, NaN), (2, Finite 0)]))"
    "degenerate_zero (example_state [(1, NaN), (2, Finite 0)])"
    "degenerate_nan (example_state [(1, NaN), (2, Finite 0)])"
    by (simp_all add: example_state_def degenerate_zero_def degenerate_nan_def is_zero_def isnan_def)
  have b: "2 \<le> length (computed_hillas_params (example_state [(1, NaN), (2, Finite 3)]))"
    "\<not> degenerate_zero (example_state [(1, NaN), (2, Finite 3)])"
    "degenerate_nan (example_state [(1, NaN), (2, Finite 3)])"
    by (simp_all add: example_state_def degenerate_zero_def degenerate_nan_def is_zero_def isnan_def)
  have c: "2 \<le> length (computed_hillas_params (example_state [(1, Finite 2), (2, Finite 3)]))"
    "\<not> degenerate_zero (example_state [(1, Finite 2), (2, Finite 3)])"
    "\<not> degenerate_nan (example_state [(1, Finite 2), (2, Finite 3)])"
    by (simp_all add: example_state_def degenerate_zero_def degenerate_nan_def is_zero_def isnan_def)
  have d: "length (computed_hillas_params (example_state [(1, Finite 2)])) < 2"
    by (simp add: example_state_def)
  note t = stereo_gating_order [where env = example_collaborators and ev = example_event]
  from t [of "example_state [(1, NaN), (2, Finite 0)]"] a
  have ra: "stereo_stage example_collaborators example_event
              (example_state [(1, NaN), (2, Finite 0)]) = Inr [Print_width_zero 42 7]"
    by (simp add: ids)
  from t [of "example_state [(1, NaN), (2, Finite 3)]"] b
  have rb: "stereo_stage example_collaborators example_event
              (example_state [(1, NaN), (2, Finite 3)]) = Inr [Print_width_nan 42 7]"
    by (simp add: ids)
  from t [of "example_state [(1, Finite 2), (2, Finite 3)]"] c
  have rc: "stereo_stage example_collaborators example_event
              (example_state [(1, Finite 2), (2, Finite 3)]) \<noteq> Inr []"
    by simp
  from t [of "example_state [(1, Finite 2)]"] d
  have rd: "stereo_stage example_collaborators example_event (example_state [(1, Finite 2)]) = Inr []"
    by simp
  from a b c ra rb rc rd show ?thesis by simp
qed

lemma example_tel_loop:
  "tel_loop example_collaborators example_camera unsuitable_mask_mc example_event
     (tels_with_data example_event) initial_state = Inr example_loop_state"
  by (simp add: example_event_def example_collaborators_def example_camera_def
      unsuitable_mask_mc_def tel_step_def example_clean_image_def get_num_islands_def
      select_rows_def select_cols_def connected_components_def nonzero_def upt_rec Let_def
      cleaned_arrays_def zero_unselected_def truthy_def is_zero_def image_parameters_def
      initial_state_def say_def example_loop_state_def)

theorem gating_failure_keeps_mono_rows_witness:
  "tel_loop example_collaborators example_camera unsuitable_mask_mc example_event
     (tels_with_data example_event) initial_state = Inr example_loop_state
   \<and> degenerate_zero example_loop_state
   \<and> (\<exists>diag. process_event example_collaborators example_camera unsuitable_mask_mc example_event
                = Inr (written example_loop_state @ diag)
         \<and> set diag \<subseteq> {Print_width_zero 42 7, Print_width_nan 42 7}
         \<and> filter is_row (written example_loop_state @ diag)
             = filter is_row (written example_loop_state)
         \<and> filter is_stereo_row (written example_loop_state @ diag) = [])"
proof -
  have z: "degenerate_zero example_loop_state"
    by (simp add: degenerate_zero_def example_loop_state_def is_zero_def)
  then have g: "length (computed_hillas_params example_loop_state) < 2
      \<or> degenerate_zero example_loop_state \<or> degenerate_nan example_loop_state"
    by simp
  have ids: "index_event_id example_event = 42" "index_obs_id example_event = 7"
    by (simp_all add: example_event_def)
  from gating_failure_keeps_mono_rows [OF example_tel_loop g] example_tel_loop z
  show ?thesis by (simp add: ids)
qed

theorem cleaned_arrays_zero_outside_mask_witness:
  "length [True, False, True] = length [Finite 5, Finite 4, NaN]
   \<and> length [True, False, True] = length [Finite 1, Finite 2, Finite 3]
   \<and> cleaned_arrays [True, False, True] [Finite 5, Finite 4, NaN] [Finite 1, Finite 2, Finite 3]
       = Inr ([Finite 5, Finite 0, NaN], [Finite 1, Finite 0, Finite 3])"
proof -
  have l1: "length [True, False, True] = length [Finite 5, Finite 4, NaN]" by simp
  have l2: "length [True, False, True] = length [Finite 1, Finite 2, Finite 3]" by simp
  from cleaned_arrays_zero_outside_mask [OF l1 l2] obtain ic tc where
    r: "cleaned_arrays [True, False, True] [Finite 5, Finite 4, NaN] [Finite 1, Finite 2, Finite 3]
          = Inr (ic, tc)"
    and n: "length ic = 3" "length tc = 3"
    and v: "\<forall>i < 3. ic ! i = (if [True, False, True] ! i then [Finite 5, Finite 4, NaN] ! i else Finite 0)
             \<and> tc ! i = (if [True, False, True] ! i then [Finite 1, Finite 2, Finite 3] ! i
                         else Finite 0)"
    by auto
  from v have "ic ! 0 = Finite 5" "ic ! 1 = Finite 0" "ic ! 2 = NaN"
    "tc ! 0 = Finite 1" "tc ! 1 = Finite 0" "tc ! 2 = Finite 3"
    by (simp_all add: nth_Cons')
  with n have "ic = [Finite 5, Finite 0, NaN]" "tc = [Finite 1, Finite 0, Finite 3]"
    by (auto simp: list_eq_iff_nth_eq nth_Cons' less_Suc_eq numeral_3_eq_3 numeral_2_eq_2)
  with r l1 l2 show ?thesis by simp
qed

lemma stereo_stage_no_header:
  "stereo_stage env ev st = Inr outs \<Longrightarrow> filter is_header_row outs = []"
  by (auto simp: stereo_stage_def split: if_splits sum.splits option.splits)

lemma process_event_no_header:
  assumes "process_event env cam unsuitable ev = Inr outs"
  shows "filter is_header_row outs = []"
proof -
  from assms obtain st tail where
    l: "tel_loop env cam unsuitable ev (tels_with_data ev) initial_state = Inr st"
    and t: "stereo_stage env ev st = Inr tail" and o: "outs = written st @ tail"
    by (auto simp: process_event_def split: sum.splits)
  from tel_loop_written [OF l] have "filter is_header_row (written st) = []"
    by (auto simp: initial_state_def filter_empty_conv)
  with stereo_stage_no_header [OF t] o show ?thesis by simp
qed

lemma data_events_duplicate:
  "index_event_id b = index_event_id a \<Longrightarrow>
   data_events env cam previous_event_id (xs @ a # b # ys)
     = data_events env cam previous_event_id (xs @ a # ys)"
proof (induction xs arbitrary: previous_event_id)
  case Nil
  then show ?case by (simp split: sum.splits)
next
  case (Cons x xs)
  then show ?case by (simp split: sum.splits)
qed

lemma mc_events_all:
  "\<forall>ev \<in> set source. \<exists>outs. process_event env cam unsuitable_mask_mc ev = Inr outs \<Longrightarrow>
   \<exists>r. mc_events env cam obs_id_last source = Inr r
     \<and> filter (\<lambda>a. \<not> is_header_row a) r
         = concat (map (\<lambda>ev. outputs_of (process_event env cam unsuitable_mask_mc ev)) source)"
proof (induction source arbitrary: obs_id_last)
  case Nil
  show ?case by simp
next
  case (Cons ev source)
  from Cons.prems obtain outs where o: "process_event env cam unsuitable_mask_mc ev = Inr outs"
    by auto
  from Cons.prems have "\<forall>ev \<in> set source. \<exists>outs. process_event env cam unsuitable_mask_mc ev = Inr outs"
    by simp
  from Cons.IH [OF this, of "index_obs_id ev"] obtain later where
    l: "mc_events env cam (index_obs_id ev) source = Inr later"
    and f: "filter (\<lambda>a. \<not> is_header_row a) later
          = concat (map (\<lambda>ev. outputs_of (process_event env cam unsuitable_mask_mc ev)) source)"
    by blast
  have keep: "filter (\<lambda>a. \<not> is_header_row a) outs = outs"
    using process_event_no_header [OF o] by (simp add: filter_empty_conv filter_id_conv)
  show ?case using o l f keep by (simp add: outputs_of_def)
qed

text \<open>
  C10. In the real-data loop an event whose identifier equals that of the event just
  before it is passed over entirely: the run's result is the same as if the event were not
  in the source, so of two consecutive events with one identifier only the first is
  processed. The Monte Carlo loop has no such test: when no event raises, its output
  without the header rows is the concatenation of the outputs of every event of the
  source, duplicates included.
\<close>

theorem consecutive_duplicate_skipped_in_data_only:
  "(index_event_id b = index_event_id a \<longrightarrow>
      data_events env cam previous_event_id (xs @ a # b # ys)
        = data_events env cam previous_event_id (xs @ a # ys))
   \<and> ((\<forall>ev \<in> set source. \<exists>outs. process_event env cam unsuitable_mask_mc ev = Inr outs) \<longrightarrow>
        (\<exists>r. mc_events env cam obs_id_last source = Inr r
          \<and> filter (\<lambda>a. \<not> is_header_row a) r
              = concat (map (\<lambda>ev. outputs_of (process_event env cam unsuitable_mask_mc ev)) source)))"
  using data_events_duplicate [of b a env cam previous_event_id xs ys]
    mc_events_all [of source env cam obs_id_last]
  by blast

lemma example_process_event:
  "process_event example_collaborators example_camera unsuitable_mask_mc example_event
     = Inr (written example_loop_state @ [Print_width_zero 42 7])"
  by (simp add: process_event_def example_tel_loop)
     (simp add: stereo_stage_def example_loop_state_def is_zero_def example_event_def)

theorem consecutive_duplicate_skipped_in_data_only_witness:
  "index_event_id (example_event\<lparr>index_obs_id := 8\<rparr>) = index_event_id example_event
   \<and> data_events example_collaborators example_camera 0
        ([] @ example_event # example_event\<lparr>index_obs_id := 8\<rparr> # [])
       = data_events example_collaborators example_camera 0 ([] @ example_event # [])
   \<and> (\<exists>r. mc_events example_collaborators example_camera (- 1) [example_event, example_event] = Inr r
         \<and> filter (\<lambda>a. \<not> is_header_row a) r
             = (written example_loop_state @ [Print_width_zero 42 7])
               @ (written example_loop_state @ [Print_width_zero 42 7]))"
proof -
  have same: "index_event_id (example_event\<lparr>index_obs_id := 8\<rparr>) = index_event_id example_event"
    by simp
  have ok: "\<forall>ev \<in> set [example_event, example_event].
              \<exists>outs. process_event example_collaborators example_camera unsuitable_mask_mc ev = Inr outs"
    by (simp add: example_process_event)
  note t = consecutive_duplicate_skipped_in_data_only
    [where a = example_event and b = "example_event\<lparr>index_obs_id := 8\<rparr>"
       and env = example_collaborators and cam = example_camera and previous_event_id = 0
       and xs = "[]" and ys = "[]" and source = "[example_event, example_event]"
       and obs_id_last = "- 1"]
  from t same ok show ?thesis
    by (simp add: example_process_event outputs_of_def del: data_events.simps mc_events.simps)
qed

lemma reco_tel_loop_written:
  "\<exists>as. written (reco_tel_loop env tels ev tids st) = written st @ as
     \<and> (\<forall>a \<in> set as. \<not> is_stereo_row a)"
proof (induction tids arbitrary: st)
  case Nil
  show ?case by simp
next
  case (Cons tid tids)
  show ?case
  proof (cases "tid \<in> set tels")
    case False
    with Cons.IH [of st] show ?thesis by simp
  next
    case True
    show ?thesis
    proof (cases "reco_try_body env ev tid")
      case (Inl e)
      with True show ?thesis by simp
    next
      case (Inr r)
      show ?thesis
      proof (cases r)
        case None
        with True Inr Cons.IH [of st] show ?thesis by simp
      next
        case (Some p)
        obtain h l t n where p: "p = (h, l, t, n)" by (cases p) auto
        let ?info = "\<lparr>obs_id = index_obs_id ev, event_id = index_event_id ev,
                       tel_id = tid, n_islands = n\<rparr>"
        let ?st = "st\<lparr>computed_hillas_params := dict_set tid h (computed_hillas_params st),
                      event_info := Some ?info,
                      written := written st @ [Write_hillas_params ?info h l t]\<rparr>"
        from Cons.IH [of ?st] obtain as where
          as: "written (reco_tel_loop env tels ev tids ?st) = written ?st @ as"
          "\<forall>a \<in> set as. \<not> is_stereo_row a" by blast
        have "written (reco_tel_loop env tels ev (tid # tids) st)
                = written st @ (Write_hillas_params ?info h l t # as)"
          using True Inr Some p as(1) by (simp add: Let_def)
        moreover have "\<forall>a \<in> set (Write_hillas_params ?info h l t # as). \<not> is_stereo_row a"
          using as(2) by simp
        ultimately show ?thesis by blast
      qed
    qed
  qed
qed

lemma stereo_stage_many:
  assumes "2 \<le> length (computed_hillas_params st)"
  shows "stereo_stage env ev st \<noteq> Inr []"
proof (cases "degenerate_zero st")
  case True
  with assms stereo_stage_zero [of st env ev] show ?thesis by simp
next
  case nz: False
  show ?thesis
  proof (cases "degenerate_nan st")
    case True
    with assms nz stereo_stage_nan [of st env ev] show ?thesis by simp
  next
    case False
    with assms nz stereo_stage_computed [of st env ev] show ?thesis by auto
  qed
qed



lemmas example_reco_simps =
  example_reco_collaborators_def example_reco_event_def example_reco_camera_def
  example_clean_image_def reco_try_body_def analyse_image_def geom_getitem_def getitem_mask_def
  mask_sum_def get_num_islands_def select_rows_def select_cols_def connected_components_def
  nonzero_def upt_rec Let_def isnan_def reco_initial_state_def

lemma analyse_image_ignores_stereo:
  "analyse_image (env\<lparr>check_write_stereo := f\<rparr>) geom img peakpos m n
     = analyse_image env geom img peakpos m n"
  by (simp add: analyse_image_def cong: sum.case_cong)

lemma reco_try_body_ignores_stereo:
  "reco_try_body (env\<lparr>check_write_stereo := f\<rparr>) ev tid = reco_try_body env ev tid"
  by (simp add: reco_try_body_def analyse_image_ignores_stereo Let_def
      cong: sum.case_cong camera_name.case_cong prod.case_cong if_cong)

lemma reco_tel_loop_ignores_stereo:
  "reco_tel_loop (env\<lparr>check_write_stereo := f\<rparr>) tels ev tids st = reco_tel_loop env tels ev tids st"
proof (induction tids arbitrary: st)
  case Nil
  show ?case by simp
next
  case (Cons tid tids)
  show ?case
    by (simp add: reco_try_body_ignores_stereo Cons.IH Let_def
        split: sum.splits option.splits prod.splits)
qed


lemmas example_bright_simps =
  example_bright_reco_event_def example_silent_reco_collaborators_def
  example_tagging_reco_collaborators_def reco_process_event_def example_reco_simps

text \<open>
  C3, as the code has it. With fewer than two ellipses for an event no stereo computation is
  performed and the event is passed over in silence: the code has no outcome or message of
  its own for it. In the Hillas preprocessing the stereo step then prints and writes
  nothing, which no event with two or more ellipses does. In the MAGIC + LST reconstruction
  the event's output is empty or just what the telescope loop wrote, without a stereo row,
  and it is the same whatever \<open>check_write_stereo\<close> is: that function is not reached.
\<close>

theorem fewer_than_two_ellipses_silent_skip:
  "(length (computed_hillas_params st) < 2 \<longrightarrow> stereo_stage env ev st = Inr [])
   \<and> (2 \<le> length (computed_hillas_params st) \<longrightarrow> stereo_stage env ev st \<noteq> Inr [])
   \<and> (length (computed_hillas_params
                (reco_tel_loop renv tels sim_ev (dl1_tel_keys sim_ev) reco_initial_state)) < 2 \<longrightarrow>
        (\<exists>outs. reco_process_event renv tels sim_ev = Inr outs
           \<and> (outs = [] \<or> outs = written (reco_tel_loop renv tels sim_ev (dl1_tel_keys sim_ev)
                                           reco_initial_state))
           \<and> filter is_stereo_row outs = []
           \<and> reco_process_event (renv\<lparr>check_write_stereo := f\<rparr>) tels sim_ev = Inr outs))"
proof (intro conjI impI)
  let ?st = "reco_tel_loop renv tels sim_ev (dl1_tel_keys sim_ev) reco_initial_state"
  assume few: "length (computed_hillas_params ?st) < 2"
  from reco_tel_loop_written [of renv tels sim_ev "dl1_tel_keys sim_ev" reco_initial_state]
  have ns: "filter is_stereo_row (written ?st) = []"
    by (auto simp: reco_initial_state_def filter_empty_conv)
  have same: "reco_process_event (renv\<lparr>check_write_stereo := f\<rparr>) tels sim_ev
                = reco_process_event renv tels sim_ev"
    using few by (simp add: reco_process_event_def Let_def reco_tel_loop_ignores_stereo)
  have "reco_process_event renv tels sim_ev = Inr []
      \<or> reco_process_event renv tels sim_ev = Inr (written ?st)"
    using few by (simp add: reco_process_event_def Let_def)
  with ns same show "\<exists>outs. reco_process_event renv tels sim_ev = Inr outs
           \<and> (outs = [] \<or> outs = written ?st) \<and> filter is_stereo_row outs = []
           \<and> reco_process_event (renv\<lparr>check_write_stereo := f\<rparr>) tels sim_ev = Inr outs"
    by auto
qed (simp_all add: stereo_stage_few stereo_stage_many)

theorem fewer_than_two_ellipses_silent_skip_witness:
  "length (computed_hillas_params (example_state [(1, Finite 2)])) < 2
   \<and> stereo_stage example_collaborators example_event (example_state [(1, Finite 2)]) = Inr []
   \<and> 2 \<le> length (computed_hillas_params example_loop_state)
   \<and> stereo_stage example_collaborators example_event example_loop_state \<noteq> Inr []
   \<and> length (computed_hillas_params
               (reco_tel_loop example_reco_collaborators [1, 5, 6]
                  (example_reco_event\<lparr>dl1_tel_keys := [1, 6]\<rparr>)
                  (dl1_tel_keys (example_reco_event\<lparr>dl1_tel_keys := [1, 6]\<rparr>))
                  reco_initial_state)) < 2
   \<and> (\<exists>outs. reco_process_event example_reco_collaborators [1, 5, 6]
                 (example_reco_event\<lparr>dl1_tel_keys := [1, 6]\<rparr>) = Inr outs
          \<and> filter is_stereo_row outs = []
          \<and> reco_process_event
               (example_reco_collaborators\<lparr>check_write_stereo := (\<lambda>ev t hs info. Inl ValueError)\<rparr>)
               [1, 5, 6] (example_reco_event\<lparr>dl1_tel_keys := [1, 6]\<rparr>) = Inr outs)"
proof -
  have a: "length (computed_hillas_params (example_state [(1, Finite 2)])) < 2"
    by (simp add: example_state_def)
  have b: "2 \<le> length (computed_hillas_params example_loop_state)"
    by (simp add: example_loop_state_def)
  have c: "length (computed_hillas_params
               (reco_tel_loop example_reco_collaborators [1, 5, 6]
                  (example_reco_event\<lparr>dl1_tel_keys := [1, 6]\<rparr>)
                  (dl1_tel_keys (example_reco_event\<lparr>dl1_tel_keys := [1, 6]\<rparr>))
                  reco_initial_state)) < 2"
    by (simp add: example_reco_simps)
  note t = fewer_than_two_ellipses_silent_skip
    [where env = example_collaborators and ev = example_event
       and renv = example_reco_collaborators and tels = "[1, 5, 6]"
       and sim_ev = "example_reco_event\<lparr>dl1_tel_keys := [1, 6]\<rparr>"
       and f = "\<lambda>ev t hs info. Inl ValueError"]
  from t [of "example_state [(1, Finite 2)]"] a
  have ra: "stereo_stage example_collaborators example_event (example_state [(1, Finite 2)]) = Inr []"
    by blast
  from t [of example_loop_state] b c
  have rb: "stereo_stage example_collaborators example_event example_loop_state \<noteq> Inr []"
    and rc: "\<exists>outs. reco_process_event example_reco_collaborators [1, 5, 6]
                 (example_reco_event\<lparr>dl1_tel_keys := [1, 6]\<rparr>) = Inr outs
          \<and> filter is_stereo_row outs = []
          \<and> reco_process_event
               (example_reco_collaborators\<lparr>check_write_stereo := (\<lambda>ev t hs info. Inl ValueError)\<rparr>)
               [1, 5, 6] (example_reco_event\<lparr>dl1_tel_keys := [1, 6]\<rparr>) = Inr outs"
    by blast+
  from a b c ra rb rc show ?thesis by blast
qed

text \<open>
  The claim C3 as it is written fails: no outcome named for insufficient telescopes is
  produced. With one ellipse the stereo step of the Hillas preprocessing leaves no line and
  no row; in \<open>stereo_reco_MAGIC_LST\<close> an event with one ellipse ends with the row of its one
  telescope and no line printed, and an event with two good ellipses whose
  \<open>check_write_stereo\<close> writes nothing ends the same way, with the rows of its telescopes and
  no line printed, so the outcome is not distinct either.
\<close>

theorem insufficient_telescopes_counterexample:
  "length (computed_hillas_params (example_state [(1, Finite 2)])) = 1
   \<and> stereo_stage example_collaborators example_event (example_state [(1, Finite 2)]) = Inr []
   \<and> reco_process_event example_reco_collaborators [1, 5, 6]
        (example_reco_event\<lparr>dl1_tel_keys := [1, 6]\<rparr>)
       = Inr [Write_hillas_params \<lparr>obs_id = 7, event_id = 42, tel_id = 6, n_islands = 1\<rparr>
                \<lparr>intensity = Finite 9, width = Finite 9, psi = Finite 0\<rparr> 2 1]
   \<and> filter is_diagnostic
        (outputs_of (reco_process_event example_reco_collaborators [1, 5, 6]
                       (example_reco_event\<lparr>dl1_tel_keys := [1, 6]\<rparr>))) = []
   \<and> length (computed_hillas_params
               (reco_tel_loop example_silent_reco_collaborators [1, 5, 6]
                  (example_bright_reco_event\<lparr>dl1_tel_keys := [5, 6]\<rparr>) [5, 6]
                  reco_initial_state)) = 2
   \<and> reco_process_event example_silent_reco_collaborators [1, 5, 6]
        (example_bright_reco_event\<lparr>dl1_tel_keys := [5, 6]\<rparr>)
       = Inr (written (reco_tel_loop example_silent_reco_collaborators [1, 5, 6]
                         (example_bright_reco_event\<lparr>dl1_tel_keys := [5, 6]\<rparr>) [5, 6]
                         reco_initial_state))
   \<and> filter is_diagnostic
        (outputs_of (reco_process_event example_silent_reco_collaborators [1, 5, 6]
                       (example_bright_reco_event\<lparr>dl1_tel_keys := [5, 6]\<rparr>))) = []"
proof (intro conjI)
  show "length (computed_hillas_params (example_state [(1, Finite 2)])) = 1"
    by (simp add: example_state_def)
  show "stereo_stage example_collaborators example_event (example_state [(1, Finite 2)]) = Inr []"
    by (simp add: stereo_stage_def example_state_def)
  show "reco_process_event example_reco_collaborators [1, 5, 6]
        (example_reco_event\<lparr>dl1_tel_keys := [1, 6]\<rparr>)
       = Inr [Write_hillas_params \<lparr>obs_id = 7, event_id = 42, tel_id = 6, n_islands = 1\<rparr>
                \<lparr>intensity = Finite 9, width = Finite 9, psi = Finite 0\<rparr> 2 1]"
    by (simp add: example_bright_simps)
  show "filter is_diagnostic
        (outputs_of (reco_process_event example_reco_collaborators [1, 5, 6]
                       (example_reco_event\<lparr>dl1_tel_keys := [1, 6]\<rparr>))) = []"
    by (simp add: example_bright_simps outputs_of_def)
  show "length (computed_hillas_params
               (reco_tel_loop example_silent_reco_collaborators [1, 5, 6]
                  (example_bright_reco_event\<lparr>dl1_tel_keys := [5, 6]\<rparr>) [5, 6]
                  reco_initial_state)) = 2"
    by (simp add: example_bright_simps)
  show "reco_process_event example_silent_reco_collaborators [1, 5, 6]
        (example_bright_reco_event\<lparr>dl1_tel_keys := [5, 6]\<rparr>)
       = Inr (written (reco_tel_loop example_silent_reco_collaborators [1, 5, 6]
                         (example_bright_reco_event\<lparr>dl1_tel_keys := [5, 6]\<rparr>) [5, 6]
                         reco_initial_state))"
    by (simp add: example_bright_simps)
  show "filter is_diagnostic
        (outputs_of (reco_process_event example_silent_reco_collaborators [1, 5, 6]
                       (example_bright_reco_event\<lparr>dl1_tel_keys := [5, 6]\<rparr>))) = []"
    by (simp add: example_bright_simps outputs_of_def)
qed





lemma tel_step_skip:
  assumes "unsuitable env ev tid = Inr um"
    and "clean_image env (dl1_image ev tid) (dl1_peak_time ev tid) um
           = Inr (clean_mask, event_image, event_pulse_time)"
    and "get_num_islands cam clean_mask event_image = Inr n"
    and "cleaned_arrays clean_mask event_image event_pulse_time = Inr (ic, tc)"
    and "\<not> list_ex truthy ic \<or> image_parameters env cam ic tc event_image clean_mask = Inl ValueError"
  shows "tel_step env cam unsuitable ev tid st
           = Inr (say (if list_ex truthy ic
                       then Print_hillas_failed (index_event_id ev) (index_obs_id ev) tid
                       else Print_did_not_pass_cleaning (index_event_id ev) (index_obs_id ev) tid) st)"
  using assms by (auto simp: tel_step_def)

lemma reco_process_event_skip:
  assumes "skip (reco_tel_loop env tels ev (dl1_tel_keys ev) reco_initial_state)"
  shows "\<exists>outs. reco_process_event env tels ev = Inr outs \<and> filter is_stereo_row outs = []"
proof -
  let ?st = "reco_tel_loop env tels ev (dl1_tel_keys ev) reco_initial_state"
  from reco_tel_loop_written [of env tels ev "dl1_tel_keys ev" reco_initial_state]
  have ns: "filter is_stereo_row (written ?st) = []"
    by (auto simp: reco_initial_state_def filter_empty_conv)
  have "reco_process_event env tels ev = Inr [] \<or> reco_process_event env tels ev = Inr (written ?st)"
    using assms by (simp add: reco_process_event_def Let_def)
  with ns show ?thesis by auto
qed

text \<open>
  C2, as the code has it. In the Hillas preprocessing (\<open>process_dataset_mc\<close>,
  \<open>process_dataset_data\<close>) a telescope whose cleaned image has no nonzero pixel, or whose
  parameter computation raises \<open>ValueError\<close>, is the only unit of work skipped: one line
  carrying the event, observation and telescope identifiers is printed, nothing else of
  the event's state changes, and the loop goes on with the remaining telescopes. In
  \<open>stereo_reco_MAGIC_LST\<close> an exception raised while a telescope is processed prints
  \<open>Image not reconstructed\<close> and the exception, sets \<open>skip\<close> and leaves the telescope loop:
  the remaining telescopes of the event are not processed and the event gets no stereo
  row, but the event loop goes on with the next event.
\<close>

theorem telescope_failure_handling:
  "(unsuitable env ev tid = Inr um
      \<and> clean_image env (dl1_image ev tid) (dl1_peak_time ev tid) um
          = Inr (clean_mask, event_image, event_pulse_time)
      \<and> get_num_islands cam clean_mask event_image = Inr n
      \<and> cleaned_arrays clean_mask event_image event_pulse_time = Inr (ic, tc)
      \<and> (\<not> list_ex truthy ic
           \<or> image_parameters env cam ic tc event_image clean_mask = Inl ValueError)
      \<longrightarrow> tel_loop env cam unsuitable ev (tid # tids) st
           = tel_loop env cam unsuitable ev tids
               (say (if list_ex truthy ic
                     then Print_hillas_failed (index_event_id ev) (index_obs_id ev) tid
                     else Print_did_not_pass_cleaning (index_event_id ev) (index_obs_id ev) tid) st))
   \<and> (rtid \<in> set tels \<and> reco_try_body renv sim_ev rtid = Inl e
      \<longrightarrow> reco_tel_loop renv tels sim_ev (rtid # rtids) rst
           = rst\<lparr>written := written rst @ [Print_image_not_reconstructed, Print_exception e],
                 skip := True\<rparr>)
   \<and> (skip (reco_tel_loop renv tels sim_ev (dl1_tel_keys sim_ev) reco_initial_state)
      \<longrightarrow> (\<exists>outs. reco_process_event renv tels sim_ev = Inr outs
             \<and> filter is_stereo_row outs = []
             \<and> reco_events renv tels (sim_ev # source)
                 = (case reco_events renv tels source of
                      Inl e \<Rightarrow> Inl e
                    | Inr later \<Rightarrow> Inr (outs @ later))))"
proof (intro conjI impI)
  assume a: "unsuitable env ev tid = Inr um
      \<and> clean_image env (dl1_image ev tid) (dl1_peak_time ev tid) um
          = Inr (clean_mask, event_image, event_pulse_time)
      \<and> get_num_islands cam clean_mask event_image = Inr n
      \<and> cleaned_arrays clean_mask event_image event_pulse_time = Inr (ic, tc)
      \<and> (\<not> list_ex truthy ic
           \<or> image_parameters env cam ic tc event_image clean_mask = Inl ValueError)"
  then have "tel_step env cam unsuitable ev tid st
           = Inr (say (if list_ex truthy ic
                       then Print_hillas_failed (index_event_id ev) (index_obs_id ev) tid
                       else Print_did_not_pass_cleaning (index_event_id ev) (index_obs_id ev) tid) st)"
    using tel_step_skip [of unsuitable env ev tid um clean_mask event_image event_pulse_time
        cam n ic tc st]
    by blast
  then show "tel_loop env cam unsuitable ev (tid # tids) st
           = tel_loop env cam unsuitable ev tids
               (say (if list_ex truthy ic
                     then Print_hillas_failed (index_event_id ev) (index_obs_id ev) tid
                     else Print_did_not_pass_cleaning (index_event_id ev) (index_obs_id ev) tid) st)"
    by simp
next
  assume "rtid \<in> set tels \<and> reco_try_body renv sim_ev rtid = Inl e"
  then show "reco_tel_loop renv tels sim_ev (rtid # rtids) rst
           = rst\<lparr>written := written rst @ [Print_image_not_reconstructed, Print_exception e],
                 skip := True\<rparr>"
    by simp
next
  assume "skip (reco_tel_loop renv tels sim_ev (dl1_tel_keys sim_ev) reco_initial_state)"
  from reco_process_event_skip [OF this] obtain outs where
    o: "reco_process_event renv tels sim_ev = Inr outs" "filter is_stereo_row outs = []"
    by blast
  then show "\<exists>outs. reco_process_event renv tels sim_ev = Inr outs
             \<and> filter is_stereo_row outs = []
             \<and> reco_events renv tels (sim_ev # source)
                 = (case reco_events renv tels source of
                      Inl e \<Rightarrow> Inl e
                    | Inr later \<Rightarrow> Inr (outs @ later))"
    by simp
qed

theorem telescope_failure_handling_witness:
  "unsuitable_mask_mc example_collaborators example_dim_event 1 = Inr None
   \<and> clean_image example_collaborators (dl1_image example_dim_event 1)
        (dl1_peak_time example_dim_event 1) None
       = Inr ([False, False, False, False], [Finite 1, Finite 2, Finite 0, Finite 1],
              [Finite 3, Finite 3, Finite 3, Finite 3])
   \<and> get_num_islands example_camera [False, False, False, False]
        [Finite 1, Finite 2, Finite 0, Finite 1] = Inr 0
   \<and> cleaned_arrays [False, False, False, False] [Finite 1, Finite 2, Finite 0, Finite 1]
        [Finite 3, Finite 3, Finite 3, Finite 3]
       = Inr ([Finite 0, Finite 0, Finite 0, Finite 0], [Finite 0, Finite 0, Finite 0, Finite 0])
   \<and> \<not> list_ex truthy [Finite 0, Finite 0, Finite 0, Finite 0]
   \<and> tel_loop example_collaborators example_camera unsuitable_mask_mc example_dim_event
        (1 # [2]) initial_state
       = tel_loop example_collaborators example_camera unsuitable_mask_mc example_dim_event [2]
           (say (Print_did_not_pass_cleaning 42 7 1) initial_state)
   \<and> (5 :: int) \<in> set [1, 5, 6]
   \<and> reco_try_body example_reco_collaborators example_reco_event 5 = Inl ValueError
   \<and> reco_tel_loop example_reco_collaborators [1, 5, 6] example_reco_event (5 # [6])
        reco_initial_state
       = reco_initial_state\<lparr>written := written (reco_initial_state :: nat reco_state)
                                  @ [Print_image_not_reconstructed, Print_exception ValueError],
                             skip := True\<rparr>
   \<and> skip (reco_tel_loop example_reco_collaborators [1, 5, 6] example_reco_event
             (dl1_tel_keys example_reco_event) reco_initial_state)
   \<and> (\<exists>outs. reco_process_event example_reco_collaborators [1, 5, 6] example_reco_event = Inr outs
         \<and> filter is_stereo_row outs = []
         \<and> reco_events example_reco_collaborators [1, 5, 6] (example_reco_event # [])
             = (case reco_events example_reco_collaborators [1, 5, 6] [] of
                  Inl e \<Rightarrow> Inl e
                | Inr later \<Rightarrow> Inr (outs @ later)))"
proof -
  have u: "unsuitable_mask_mc example_collaborators example_dim_event 1 = Inr None"
    by (simp add: unsuitable_mask_mc_def)
  have c: "clean_image example_collaborators (dl1_image example_dim_event 1)
        (dl1_peak_time example_dim_event 1) None
       = Inr ([False, False, False, False], [Finite 1, Finite 2, Finite 0, Finite 1],
              [Finite 3, Finite 3, Finite 3, Finite 3])"
    by (simp add: example_collaborators_def example_dim_event_def example_event_def
        example_clean_image_def Let_def)
  have g: "get_num_islands example_camera [False, False, False, False]
        [Finite 1, Finite 2, Finite 0, Finite 1] = Inr 0"
    by (simp add: get_num_islands_def select_rows_def select_cols_def connected_components_def
        example_camera_def nonzero_def upt_rec Let_def)
  have z: "cleaned_arrays [False, False, False, False] [Finite 1, Finite 2, Finite 0, Finite 1]
        [Finite 3, Finite 3, Finite 3, Finite 3]
       = Inr ([Finite 0, Finite 0, Finite 0, Finite 0], [Finite 0, Finite 0, Finite 0, Finite 0])"
    by (simp add: cleaned_arrays_def zero_unselected_def)
  have n: "\<not> list_ex truthy [Finite 0, Finite 0, Finite 0, Finite 0]"
    by (simp add: truthy_def is_zero_def)
  have ids: "index_event_id example_dim_event = 42" "index_obs_id example_dim_event = 7"
    by (simp_all add: example_dim_event_def example_event_def)
  have m: "(5 :: int) \<in> set [1, 5, 6]" by simp
  have r: "reco_try_body example_reco_collaborators example_reco_event 5 = Inl ValueError"
    by (simp add: example_reco_simps)
  have k: "skip (reco_tel_loop example_reco_collaborators [1, 5, 6] example_reco_event
             (dl1_tel_keys example_reco_event) reco_initial_state)"
    by (simp add: example_reco_simps)
  note t = telescope_failure_handling
    [where unsuitable = unsuitable_mask_mc and env = example_collaborators
       and ev = example_dim_event and tid = 1 and um = None
       and clean_mask = "[False, False, False, False]"
       and event_image = "[Finite 1, Finite 2, Finite 0, Finite 1]"
       and event_pulse_time = "[Finite 3, Finite 3, Finite 3, Finite 3]"
       and cam = example_camera and n = 0
       and ic = "[Finite 0, Finite 0, Finite 0, Finite 0]"
       and tc = "[Finite 0, Finite 0, Finite 0, Finite 0]"
       and tids = "[2]" and st = initial_state
       and rtid = 5 and tels = "[1, 5, 6]" and renv = example_reco_collaborators
       and sim_ev = example_reco_event and e = ValueError and rtids = "[6]"
       and rst = reco_initial_state and source = "[]"]
  from t u c g z n have p1: "tel_loop example_collaborators example_camera unsuitable_mask_mc
        example_dim_event (1 # [2]) initial_state
       = tel_loop example_collaborators example_camera unsuitable_mask_mc example_dim_event [2]
           (say (Print_did_not_pass_cleaning 42 7 1) initial_state)"
    by (simp only: ids simp_thms if_False)
  from t m r have p2: "reco_tel_loop example_reco_collaborators [1, 5, 6] example_reco_event
        (5 # [6]) reco_initial_state
       = reco_initial_state\<lparr>written := written (reco_initial_state :: nat reco_state)
                                  @ [Print_image_not_reconstructed, Print_exception ValueError],
                             skip := True\<rparr>"
    by (simp only: simp_thms)
  from t k have p3: "\<exists>outs. reco_process_event example_reco_collaborators [1, 5, 6]
                             example_reco_event = Inr outs
         \<and> filter is_stereo_row outs = []
         \<and> reco_events example_reco_collaborators [1, 5, 6] (example_reco_event # [])
             = (case reco_events example_reco_collaborators [1, 5, 6] [] of
                  Inl e \<Rightarrow> Inl e
                | Inr later \<Rightarrow> Inr (outs @ later))"
    by (simp only: simp_thms)
  from u c g z n p1 m r p2 k p3 show ?thesis by (simp only: simp_thms)
qed

text \<open>
  The claim C2 as it is written fails in \<open>stereo_reco_MAGIC_LST\<close>: telescope 5 of the
  example event raises in its leakage computation; telescope 6, which on its own would be
  parametrised and written, is then never processed, and the two lines printed carry no
  identifier. In the Hillas preprocessing an exception other than \<open>ValueError\<close> from the
  shape computation is not caught and ends the whole run.
\<close>

theorem telescope_failure_counterexample:
  "reco_try_body example_reco_collaborators example_reco_event 5 = Inl ValueError
   \<and> written (reco_tel_loop example_reco_collaborators [1, 5, 6] example_reco_event [6]
               reco_initial_state)
       = [Write_hillas_params \<lparr>obs_id = 7, event_id = 42, tel_id = 6, n_islands = 1\<rparr>
            \<lparr>intensity = Finite 9, width = Finite 9, psi = Finite 0\<rparr> 2 1]
   \<and> reco_process_event example_reco_collaborators [1, 5, 6] example_reco_event
       = Inr [Print_image_not_reconstructed, Print_exception ValueError]
   \<and> process_dataset_mc
        (example_collaborators\<lparr>hillas_parameters := (\<lambda>cam img. Inl (OtherError 0))\<rparr>)
        example_camera [example_event, example_event]
       = Inl (OtherError 0)"
proof (intro conjI)
  show "reco_try_body example_reco_collaborators example_reco_event 5 = Inl ValueError"
    by (simp add: example_reco_simps)
  show "written (reco_tel_loop example_reco_collaborators [1, 5, 6] example_reco_event [6]
               reco_initial_state)
       = [Write_hillas_params \<lparr>obs_id = 7, event_id = 42, tel_id = 6, n_islands = 1\<rparr>
            \<lparr>intensity = Finite 9, width = Finite 9, psi = Finite 0\<rparr> 2 1]"
    by (simp add: example_reco_simps)
  show "reco_process_event example_reco_collaborators [1, 5, 6] example_reco_event
       = Inr [Print_image_not_reconstructed, Print_exception ValueError]"
    by (simp add: reco_process_event_def example_reco_simps)
  show "process_dataset_mc
        (example_collaborators\<lparr>hillas_parameters := (\<lambda>cam img. Inl (OtherError 0))\<rparr>)
        example_camera [example_event, example_event]
       = Inl (OtherError 0)"
    by (simp add: process_dataset_mc_def process_event_def example_event_def
        example_collaborators_def example_camera_def
        unsuitable_mask_mc_def tel_step_def example_clean_image_def get_num_islands_def
        select_rows_def select_cols_def connected_components_def nonzero_def upt_rec Let_def
        cleaned_arrays_def zero_unselected_def truthy_def is_zero_def image_parameters_def
        initial_state_def)
qed

section \<open>Properties of the cleaning engine\<close>

lemma core_candidates_keeps_exclusions:
  "keeps_exclusions pol cfg topology img unsuitable_mask
     (core_candidates pol cfg topology img unsuitable_mask)"
  by (simp add: keeps_exclusions_def core_candidates_def)

lemma reject_pass_keeps_exclusions:
  "keeps_exclusions pol cfg topology img unsuitable_mask core \<Longrightarrow>
   keeps_exclusions pol cfg topology img unsuitable_mask (reject_pass pol cfg img time_map core)"
  by (simp add: keeps_exclusions_def reject_pass_def Let_def)

lemma reject_outliers_keeps_exclusions:
  "keeps_exclusions pol cfg topology img unsuitable_mask core \<Longrightarrow>
   keeps_exclusions pol cfg topology img unsuitable_mask (reject_outliers k pol cfg img time_map core)"
proof (induction k arbitrary: core)
  case 0
  then show ?case by simp
next
  case (Suc k)
  from Suc.prems have "keeps_exclusions pol cfg topology img unsuitable_mask
                         (reject_pass pol cfg img time_map core)"
    by (rule reject_pass_keeps_exclusions)
  from Suc.IH [OF this] Suc.prems show ?case by (simp add: Let_def)
qed

lemma expand_once_keeps_exclusions:
  "keeps_exclusions pol cfg topology img unsuitable_mask accepted \<Longrightarrow>
   keeps_exclusions pol cfg topology img unsuitable_mask
     (expand_once pol cfg topology img time_map unsuitable_mask accepted)"
  by (auto simp: keeps_exclusions_def expand_once_def recruits_def)

lemma expand_keeps_exclusions:
  "keeps_exclusions pol cfg topology img unsuitable_mask accepted \<Longrightarrow>
   keeps_exclusions pol cfg topology img unsuitable_mask
     (expand pol cfg topology img time_map unsuitable_mask accepted)"
proof (induction pol cfg topology img time_map unsuitable_mask accepted rule: expand.induct)
  case (1 pol cfg topology img time_map unsuitable_mask accepted)
  let ?next = "expand_once pol cfg topology img time_map unsuitable_mask accepted"
  show ?case
  proof (cases "?next = accepted")
    case True
    with "1.prems" show ?thesis by (simp add: expand.simps [of _ _ _ _ _ _ accepted])
  next
    case False
    have "keeps_exclusions pol cfg topology img unsuitable_mask ?next"
      using "1.prems" by (rule expand_once_keeps_exclusions)
    from "1.IH" [OF refl False this] False show ?thesis
      by (simp add: expand.simps [of _ _ _ _ _ _ accepted])
  qed
qed

lemma reject_outliers_length:
  "length (reject_outliers k pol cfg img time_map core) = length core"
proof (induction k arbitrary: core)
  case 0
  show ?case by simp
next
  case (Suc k)
  have "length (reject_pass pol cfg img time_map core) = length core"
    by (simp add: reject_pass_def Let_def)
  with Suc.IH [of "reject_pass pol cfg img time_map core"] show ?case by (simp add: Let_def)
qed

lemma expand_length:
  "length (expand pol cfg topology img time_map unsuitable_mask accepted) = length accepted"
proof (induction pol cfg topology img time_map unsuitable_mask accepted rule: expand.induct)
  case (1 pol cfg topology img time_map unsuitable_mask accepted)
  let ?next = "expand_once pol cfg topology img time_map unsuitable_mask accepted"
  show ?case
  proof (cases "?next = accepted")
    case True
    then show ?thesis by (simp add: expand.simps [of _ _ _ _ _ _ accepted])
  next
    case False
    from "1.IH" [OF refl False] False expand_once_grow(1) [of pol cfg topology img time_map
        unsuitable_mask accepted]
    show ?thesis by (simp add: expand.simps [of _ _ _ _ _ _ accepted])
  qed
qed

lemma clean_keeps_exclusions:
  "keeps_exclusions pol cfg topology img unsuitable_mask
     (clean pol img time_map topology unsuitable_mask cfg)"
  unfolding clean_def Let_def
  by (intro expand_keeps_exclusions) (simp add: core_candidates_keeps_exclusions reject_outliers_keeps_exclusions)

lemma clean_length: "length (clean pol img time_map topology unsuitable_mask cfg) = length img"
  by (simp add: clean_def Let_def expand_length reject_outliers_length core_candidates_def)

text \<open>
  C7. The mask returned by the cleaning has one entry per pixel of the image and is false
  at every pixel marked in the unsuitable mask, whatever the configuration, the hot-pixel
  test and the reference-time formula are.
\<close>

theorem clean_never_selects_unsuitable:
  "length (clean pol img time_map topology unsuitable_mask cfg) = length img
   \<and> (\<forall>i < length img. i < length unsuitable_mask \<and> unsuitable_mask ! i \<longrightarrow>
         \<not> clean pol img time_map topology unsuitable_mask cfg ! i)"
  using clean_keeps_exclusions [of pol cfg topology img unsuitable_mask time_map]
  by (auto simp: clean_length keeps_exclusions_def excluded_def)

lemma example_clean:
  "clean example_policy [Finite 10, Finite 4, Finite 8, Finite 9]
     [Finite 3, Finite 4, Finite 3, Finite 3] example_camera [False, False, False, True]
     example_config
   = [True, True, True, False]"
  by (simp add: clean_def core_candidates_def excluded_def example_policy_def example_config_def
      reject_pass_def Let_def upt_rec expand_once_def recruits_def adjacent_def
      example_camera_def numeral_3_eq_3
      expand.simps [of _ _ _ _ _ _ "[True, False, True, False]"]
      expand.simps [of _ _ _ _ _ _ "[True, True, True, False]"])

theorem clean_never_selects_unsuitable_witness:
  "(3 :: nat) < length [Finite 10, Finite 4, Finite 8, Finite 9]
   \<and> 3 < length [False, False, False, True]
   \<and> [False, False, False, True] ! 3
   \<and> clean example_policy [Finite 10, Finite 4, Finite 8, Finite 9]
        [Finite 3, Finite 4, Finite 3, Finite 3] example_camera [False, False, False, True]
        example_config
       = [True, True, True, False]
   \<and> \<not> clean example_policy [Finite 10, Finite 4, Finite 8, Finite 9]
          [Finite 3, Finite 4, Finite 3, Finite 3] example_camera [False, False, False, True]
          example_config ! 3"
proof -
  have a: "(3 :: nat) < length [Finite 10, Finite 4, Finite 8, Finite 9]" by simp
  have b: "3 < length [False, False, False, True]" "[False, False, False, True] ! 3" by simp_all
  from clean_never_selects_unsuitable
    [of example_policy "[Finite 10, Finite 4, Finite 8, Finite 9]"
        "[Finite 3, Finite 4, Finite 3, Finite 3]" example_camera "[False, False, False, True]"
        example_config] a b
  have c: "\<not> clean example_policy [Finite 10, Finite 4, Finite 8, Finite 9]
          [Finite 3, Finite 4, Finite 3, Finite 3] example_camera [False, False, False, True]
          example_config ! 3"
    by blast
  from a b c example_clean show ?thesis by blast
qed

end
